theory Spec2Isabelle
  imports Complex_Main "HOL-Library.Log_Nat"
begin

section \<open>Numbers and strings of the dashboards\<close>

text \<open>
  A Python \<open>float\<close> is a binary64 value: not-a-number, an infinity, or a finite
  rational (the two zeros are not told apart; no function below reads the sign of a
  zero).  A \<open>string\<close> holds the code points of a Python \<open>str\<close> whose code points
  are below 256.  The one character of the program's text beyond that range is the rupee
  glyph U+20B9; it is only ever put in front of a finished string, and is held here as
  the three bytes of its UTF-8 form.
\<close>

datatype pyfloat = NaN | PosInf | NegInf | Fin rat

text \<open>
  The exception classes that the modelled code raises or catches.  \<open>ErrorPerm\<close> is
  \<open>ftplib.error_perm\<close>; \<open>OtherError\<close> stands for every class that is none of the
  others and no subclass of them (\<open>ftplib.error_temp\<close>, \<open>EOFError\<close>,
  \<open>zipfile.BadZipFile\<close>, ...).
\<close>

datatype error =
  OverflowError | TypeError | KeyError | ValueError | FileNotFoundError | OSError | ErrorPerm
  | OtherError

definition rupee :: string where
  "rupee = [CHR 0xE2, CHR 0x82, CHR 0xB9]"

text \<open>\<open>str(n)\<close> for a natural number: its decimal digits, most significant first.\<close>

definition digit_char :: "nat \<Rightarrow> char" where
  "digit_char d = ''0123456789'' ! d"

fun str_nat :: "nat \<Rightarrow> string" where
  "str_nat n = (if n < 10 then [digit_char n] else str_nat (n div 10) @ [digit_char (n mod 10)])"

declare str_nat.simps [simp del]

text \<open>\<open>int(x)\<close> truncates towards zero.\<close>

definition py_int :: "rat \<Rightarrow> int" where
  "py_int x = (if 0 \<le> x then \<lfloor>x\<rfloor> else \<lceil>x\<rceil>)"

text \<open>
  \<open>s.rstrip(chars)\<close> removes from the right end every character that is in \<open>chars\<close>;
  \<open>s.strip()\<close> removes white space from both ends (\<open>str.isspace\<close> on the code points
  below 256).
\<close>

definition rstrip_chars :: "string \<Rightarrow> string \<Rightarrow> string" where
  "rstrip_chars chars s = rev (dropWhile (\<lambda>c. c \<in> set chars) (rev s))"

definition is_space :: "char \<Rightarrow> bool" where
  "is_space c = (of_char c \<in> {9, 10, 11, 12, 13, 28, 29, 30, 31, 32, 133, 160 :: nat})"

definition strip :: "string \<Rightarrow> string" where
  "strip s = rev (dropWhile is_space (rev (dropWhile is_space s)))"

subsection \<open>Binary64 rounding and the two-decimal rendering\<close>

text \<open>
  Round to nearest, ties to even: \<open>rne\<close> on the integers, \<open>fl\<close> on the 53-bit
  significands of binary64.  \<open>fl\<close> covers the normal range, which holds every
  quotient that \<open>format_number\<close> forms (a magnitude of at least 1000 divided by at
  most ten million).
\<close>

definition rne :: "rat \<Rightarrow> int" where
  "rne x = (let f = \<lfloor>x\<rfloor>; r = x - of_int f
            in if r < 1 / 2 then f else if 1 / 2 < r then f + 1
               else if even f then f else f + 1)"

definition scale2 :: "rat \<Rightarrow> int \<Rightarrow> rat" where
  "scale2 x k = (if 0 \<le> k then x * 2 ^ nat k else x / 2 ^ nat (- k))"

definition bin_exp :: "rat \<Rightarrow> int" where
  "bin_exp x = (let (p, q) = quotient_of x; k = bitlen p - bitlen q
                in if scale2 1 k \<le> x then k else k - 1)"

definition fl :: "rat \<Rightarrow> rat" where
  "fl x = (if x = 0 then 0
           else let e = bin_exp \<bar>x\<bar> - 52 in scale2 (of_int (rne (scale2 x (- e)))) e)"

fun fabs :: "pyfloat \<Rightarrow> pyfloat" where
  "fabs NaN = NaN"
| "fabs PosInf = PosInf"
| "fabs NegInf = PosInf"
| "fabs (Fin x) = Fin \<bar>x\<bar>"

text \<open>\<open>a >= c\<close> and \<open>a / c\<close> for a finite positive constant \<open>c\<close>.\<close>

fun fge :: "pyfloat \<Rightarrow> rat \<Rightarrow> bool" where
  "fge NaN c = False"
| "fge PosInf c = True"
| "fge NegInf c = False"
| "fge (Fin x) c = (c \<le> x)"

fun fdiv :: "pyfloat \<Rightarrow> rat \<Rightarrow> pyfloat" where
  "fdiv NaN c = NaN"
| "fdiv PosInf c = PosInf"
| "fdiv NegInf c = NegInf"
| "fdiv (Fin x) c = Fin (fl (x / c))"

text \<open>
  \<open>f"{val:.2f}"\<close>: the exact value of the float, correctly rounded to two decimals
  (ties to even), with the sign of the float in front.
\<close>

fun fmt2 :: "pyfloat \<Rightarrow> string" where
  "fmt2 NaN = ''nan''"
| "fmt2 PosInf = ''inf''"
| "fmt2 NegInf = ''-inf''"
| "fmt2 (Fin x) =
     (let n = nat (rne (\<bar>x\<bar> * 100))
      in (if x < 0 then ''-'' else '''') @ str_nat (n div 100) @ ''.'' @
         [digit_char (n mod 100 div 10), digit_char (n mod 10)])"

subsection \<open>\<open>format_indian\<close> and \<open>format_number\<close>\<close>

text \<open>
  The \<open>while s:\<close> loop of \<open>format_indian\<close>: \<open>s[-2:]\<close> goes in front of the result,
  behind a comma, and \<open>s\<close> loses its last two characters.
\<close>

function group_loop :: "string \<Rightarrow> string \<Rightarrow> string" where
  "group_loop s result =
     (if s = [] then result
      else group_loop (take (length s - 2) s) (drop (length s - 2) s @ '','' @ result))"
  by pat_completeness auto
termination
  by (relation "measure (\<lambda>(s, result). length s)") auto

declare group_loop.simps [simp del]

text \<open>\<open>int(num)\<close> raises \<open>OverflowError\<close> on an infinity.\<close>

fun format_indian :: "pyfloat \<Rightarrow> error + string" where
  "format_indian NaN = Inr ''0''"
| "format_indian PosInf = Inl OverflowError"
| "format_indian NegInf = Inl OverflowError"
| "format_indian (Fin x) =
     (let sign = (if 0 \<le> x then '''' else ''-'');
          num = nat \<bar>py_int x\<bar>
      in if num = 0 then Inr ''0''
         else let s = str_nat num
              in if length s \<le> 3 then Inr (sign @ s)
                 else Inr (sign @ group_loop (take (length s - 3) s) (drop (length s - 3) s)))"

definition with_currency :: "bool \<Rightarrow> string \<Rightarrow> string" where
  "with_currency currency formatted = (if currency then rupee @ '' '' @ formatted else formatted)"

definition abbreviated :: "pyfloat \<Rightarrow> string \<Rightarrow> bool \<Rightarrow> string" where
  "abbreviated val suffix currency =
     (let formatted_val = rstrip_chars ''.'' (rstrip_chars ''0'' (fmt2 val))
      in with_currency currency (formatted_val @ suffix))"

definition full_format :: "pyfloat \<Rightarrow> bool \<Rightarrow> error + string" where
  "full_format num currency =
     (case format_indian num of
        Inl e \<Rightarrow> Inl e
      | Inr formatted \<Rightarrow> Inr (with_currency currency formatted))"

definition format_number :: "pyfloat \<Rightarrow> bool \<Rightarrow> bool \<Rightarrow> error + string" where
  "format_number num currency short =
     (if num = NaN then Inr ''0''
      else let absnum = fabs num
           in if short then
                (if fge absnum 10000000 then Inr (abbreviated (fdiv num 10000000) ''Cr'' currency)
                 else if fge absnum 100000 then Inr (abbreviated (fdiv num 100000) ''L'' currency)
                 else if fge absnum 1000 then Inr (abbreviated (fdiv num 1000) ''K'' currency)
                 else full_format num currency)
              else full_format num currency)"

text \<open>
  The grouping of the Indian numbering system, stated on the finished string: without its
  commas it is the digit string, it does not begin with a comma, and counted from the
  right (from 0) the commas stand exactly at the places 3, 6, 9, ...: a last group of
  three digits, then groups of two.
\<close>

definition indian_grouped :: "string \<Rightarrow> string \<Rightarrow> bool" where
  "indian_grouped digits out \<longleftrightarrow>
     filter (\<lambda>c. c \<noteq> CHR '','') out = digits \<and>
     out \<noteq> [] \<and> hd out \<noteq> CHR '','' \<and>
     list_all (\<lambda>(i, c). (c = CHR '','') = (3 \<le> i \<and> i mod 3 = 0)) (enumerate 0 (rev out))"

text \<open>
  The reverse of what \<open>group_loop\<close> builds, read off the reversed digits: a comma, up
  to two digits, and so on.  It is the form in which the loop is reasoned about.
\<close>

fun rgroups :: "string \<Rightarrow> string" where
  "rgroups [] = []"
| "rgroups (a # as) = CHR '','' # take 2 (a # as) @ rgroups (drop 2 (a # as))"

section \<open>Datasets\<close>

text \<open>
  A cell of a decoded sheet is a number, a text, or missing (NaN, an empty cell).  Amounts
  are exact rationals: sums and comparisons are taken without binary64 rounding.  A
  dataset as the decoder returns it is its columns in order, each a name and its values;
  two columns may carry the same name.
\<close>

datatype cell = Num rat | Txt string | Missing

type_synonym dataframe = "(string \<times> cell list) list"

definition columns :: "dataframe \<Rightarrow> string list" where
  "columns df = map fst df"

text \<open>\<open>df.columns = df.columns.str.strip()\<close>\<close>

definition strip_columns :: "dataframe \<Rightarrow> dataframe" where
  "strip_columns df = map (\<lambda>(n, vs). (strip n, vs)) df"

text \<open>
  \<open>pd.to_numeric(x, errors='coerce').fillna(0)\<close> on one cell.  The parameter \<open>parse\<close>
  is pandas' reading of a text as a number, \<open>None\<close> where the text does not parse; a
  value that does not parse and a missing value become NaN, and \<open>fillna(0)\<close> makes
  them zero.
\<close>

definition to_numeric :: "(string \<Rightarrow> rat option) \<Rightarrow> cell \<Rightarrow> rat option" where
  "to_numeric parse c = (case c of Num x \<Rightarrow> Some x | Txt s \<Rightarrow> parse s | Missing \<Rightarrow> None)"

definition fillna0 :: "rat option \<Rightarrow> rat" where
  "fillna0 v = (case v of None \<Rightarrow> 0 | Some x \<Rightarrow> x)"

definition coerce :: "(string \<Rightarrow> rat option) \<Rightarrow> cell \<Rightarrow> cell" where
  "coerce parse c = Num (fillna0 (to_numeric parse c))"

text \<open>
  \<open>df[col] = pd.to_numeric(df[col], errors='coerce').fillna(0)\<close>.  \<open>df[col]\<close> is a
  Series when one column carries the name; it raises \<open>KeyError\<close> when none does; and
  when several do it is a DataFrame, on which \<open>pd.to_numeric\<close> raises \<open>TypeError\<close>.
\<close>

definition set_numeric :: "(string \<Rightarrow> rat option) \<Rightarrow> string \<Rightarrow> dataframe \<Rightarrow> error + dataframe" where
  "set_numeric parse col df =
     (case filter (\<lambda>n. n = col) (columns df) of
        [] \<Rightarrow> Inl KeyError
      | [_] \<Rightarrow> Inr (map (\<lambda>(n, vs). if n = col then (n, map (coerce parse) vs) else (n, vs)) df)
      | _ \<Rightarrow> Inl TypeError)"

text \<open>\<open>for col in cols: if col in df.columns: df[col] = ...\<close>\<close>

fun ensure_numeric :: "(string \<Rightarrow> rat option) \<Rightarrow> string list \<Rightarrow> dataframe \<Rightarrow> error + dataframe" where
  "ensure_numeric parse [] df = Inr df"
| "ensure_numeric parse (col # cols) df =
     (if col \<in> set (columns df)
      then (case set_numeric parse col df of
              Inl e \<Rightarrow> Inl e
            | Inr df' \<Rightarrow> ensure_numeric parse cols df')
      else ensure_numeric parse cols df)"

subsection \<open>Column reconciliation of the overdue dashboards\<close>

definition aging_cols :: "string list" where
  "aging_cols =
     [''0 To 10 Days'', ''11 To 25 Days'', ''26 To 45 Days'', ''46 To 60 Days'',
      ''61 To 90 Days'', ''91 To 120 Days'', ''121 Days and above'']"

definition balance_col :: string where
  "balance_col = ''Balance/G.Total''"

text \<open>
  The aging columns actually used: the expected names found among the stripped column
  names, or the whole expected list when none is found.
\<close>

definition actual_aging_cols :: "dataframe \<Rightarrow> string list" where
  "actual_aging_cols df =
     concat (map (\<lambda>col_name.
        if col_name \<in> set (columns df) then [col_name]
        else if strip col_name \<in> set (columns df) then [strip col_name]
        else []) aging_cols)"

definition used_aging_cols :: "dataframe \<Rightarrow> string list" where
  "used_aging_cols df =
     (let actual = actual_aging_cols df in if actual \<noteq> [] then actual else aging_cols)"

text \<open>
  Lines 85 to 101 of \<open>display_overdue_payment_dashboard\<close>: strip the column names,
  settle the aging columns, make them and the balance column numeric.
\<close>

definition reconcile :: "(string \<Rightarrow> rat option) \<Rightarrow> dataframe \<Rightarrow> error + dataframe" where
  "reconcile parse df0 =
     (let df = strip_columns df0
      in case ensure_numeric parse (used_aging_cols df) df of
           Inl e \<Rightarrow> Inl e
         | Inr df' \<Rightarrow>
             if balance_col \<in> set (columns df') then set_numeric parse balance_col df'
             else Inr df')"

text \<open>
  What reconciliation is to achieve, column by column: the name is stripped, and the
  values of an expected numeric column are numbers, zero where the value did not parse
  or was missing.
\<close>

definition numeric_cols :: "string list" where
  "numeric_cols = aging_cols @ [balance_col]"

definition reconciled :: "(string \<Rightarrow> rat option) \<Rightarrow> dataframe \<Rightarrow> dataframe" where
  "reconciled parse df0 =
     map (\<lambda>(n, vs).
        if strip n \<in> set numeric_cols
        then (strip n, map (\<lambda>c. case to_numeric parse c of None \<Rightarrow> Num 0 | Some x \<Rightarrow> Num x) vs)
        else (strip n, vs)) df0"

text \<open>The columns \<open>S\<close> made numeric, all at once: the form in which the loop of
  \<open>ensure_numeric\<close> is reasoned about.\<close>

definition coerce_in :: "(string \<Rightarrow> rat option) \<Rightarrow> string set \<Rightarrow> dataframe \<Rightarrow> dataframe" where
  "coerce_in parse S df = map (\<lambda>(n, vs). if n \<in> S then (n, map (coerce parse) vs) else (n, vs)) df"

subsection \<open>Rows of the reconciled overdue datasets\<close>

text \<open>
  The aggregations read a reconciled dataset row by row.  A row carries the columns that
  the classifications read; \<open>frame_columns\<close> lists the column names the dataset has,
  which is what the guards \<open>col in df.columns\<close> test.  A field whose column is absent
  is never read behind such a guard.
\<close>

record entity_row =
  bp_code :: cell
  bp_name :: cell
  bill_to_state :: cell
  days_61_90 :: rat
  days_91_120 :: rat
  days_121_up :: rat
  balance :: rat

record overdue_frame =
  frame_columns :: "string list"
  frame_rows :: "entity_row list"

definition has_columns :: "string list \<Rightarrow> overdue_frame \<Rightarrow> bool" where
  "has_columns cs d = (set cs \<subseteq> set (frame_columns d))"

definition entity_key :: "entity_row \<Rightarrow> cell \<times> cell" where
  "entity_key r = (bp_code r, bp_name r)"

text \<open>\<open>drop_duplicates()\<close> keeps the first of equal rows, in order.\<close>

definition drop_duplicates :: "'a list \<Rightarrow> 'a list" where
  "drop_duplicates xs = rev (remdups (rev xs))"

text \<open>
  \<open>left.merge(right, on=['BP Code', 'BP Name'])\<close>, an inner join: every row of
  \<open>left\<close> once for each key of \<open>right\<close> that equals its own, in the order of
  \<open>left\<close>.  Missing keys match each other, as in pandas.
\<close>

definition merge_on_key :: "entity_row list \<Rightarrow> (cell \<times> cell) list \<Rightarrow> entity_row list" where
  "merge_on_key left right =
     concat (map (\<lambda>l. map (\<lambda>k. l) (filter (\<lambda>k. k = entity_key l) right)) left)"

text \<open>
  \<open>sort_values(col, ascending=False)\<close>.  The order among equal keys is not fixed by
  pandas' default sort; here it is the order of the input.
\<close>

definition sort_desc :: "(entity_row \<Rightarrow> rat) \<Rightarrow> entity_row list \<Rightarrow> entity_row list" where
  "sort_desc f rows = sort_key (\<lambda>r. - f r) rows"

text \<open>
  The base customer set of \<open>display_overdue_payment_dashboard\<close> (and the base creditor
  set of \<open>display_overdue_creditor_dashboard\<close>, which is built the same way): the
  distinct (code, name) pairs of the rows with a positive balance.  Reading a column that
  the dataset lacks raises \<open>KeyError\<close>.
\<close>

definition cust_df :: "overdue_frame \<Rightarrow> error + (cell \<times> cell) list" where
  "cust_df d =
     (if balance_col \<in> set (frame_columns d)
      then (if has_columns [''BP Code'', ''BP Name''] d
            then Inr (drop_duplicates (map entity_key (filter (\<lambda>r. 0 < balance r) (frame_rows d))))
            else Inl KeyError)
      else Inr [])"

definition total_customers :: "overdue_frame \<Rightarrow> error + nat" where
  "total_customers d = (case cust_df d of Inl e \<Rightarrow> Inl e | Inr cust \<Rightarrow> Inr (length cust))"

text \<open>
  The high-risk customers of the receivables dashboard (61 days and more).  \<open>None\<close>
  is the section left out because a column is absent.
\<close>

definition high_risk_amount :: "entity_row \<Rightarrow> rat" where
  "high_risk_amount r = days_61_90 r + days_91_120 r + days_121_up r"

definition high_risk :: "overdue_frame \<Rightarrow> error + entity_row list option" where
  "high_risk d =
     (case cust_df d of
        Inl e \<Rightarrow> Inl e
      | Inr cust \<Rightarrow>
          if has_columns [''BP Code'', ''BP Name'', ''61 To 90 Days'', ''91 To 120 Days'',
                          ''121 Days and above'', ''Balance/G.Total''] d
          then let hr = filter (\<lambda>r. 0 < high_risk_amount r) (frame_rows d);
                   hr' = (if cust \<noteq> [] then merge_on_key hr cust else hr)
               in Inr (Some (sort_desc high_risk_amount hr'))
          else Inr None)"

text \<open>The at-risk creditors of the creditor dashboard (91 days and more).\<close>

definition risk_amount :: "entity_row \<Rightarrow> rat" where
  "risk_amount r = days_91_120 r + days_121_up r"

definition risk_creditors :: "overdue_frame \<Rightarrow> error + entity_row list option" where
  "risk_creditors d =
     (case cust_df d of
        Inl e \<Rightarrow> Inl e
      | Inr cred \<Rightarrow>
          if has_columns [''BP Code'', ''BP Name'', ''Bill-To-State'', ''91 To 120 Days'',
                          ''121 Days and above'', ''Balance/G.Total''] d
          then let rc = filter (\<lambda>r. 0 < risk_amount r \<and> 0 < balance r) (frame_rows d);
                   rc' = (if cred \<noteq> [] then merge_on_key rc cred else rc)
               in Inr (Some (sort_desc balance rc'))
          else Inr None)"

text \<open>The entities of the spec's counting example, by code and balance.\<close>

definition entity :: "string \<Rightarrow> rat \<Rightarrow> entity_row" where
  "entity c b =
     \<lparr>bp_code = Txt c, bp_name = Txt c, bill_to_state = Missing,
      days_61_90 = 0, days_91_120 = 0, days_121_up = 0, balance = b\<rparr>"

definition overdue_columns :: "string list" where
  "overdue_columns = [''BP Code'', ''BP Name'', ''Bill-To-State''] @ aging_cols @ [balance_col]"

section \<open>The Overdue Sales Orders page\<close>

text \<open>
  A date cell is a timestamp (nanoseconds since the epoch), a text, or missing.
  \<open>pd.to_datetime\<close> reads a text through the parameter \<open>parse_date\<close>; the result
  \<open>None\<close> is NaT.  With \<open>errors='coerce'\<close> a text that does not parse becomes NaT;
  without it the call raises \<open>ValueError\<close>.
\<close>

datatype date_cell = Stamp int | DateText string | NaT

record so_line =
  line_status :: cell
  open_qty :: cell
  line_total :: cell
  posting_date :: date_cell
  due_date :: date_cell
  ship_to_state :: cell
  ship_to_city :: cell
  display_state :: cell

record so_frame =
  so_columns :: "string list"
  so_lines :: "so_line list"

definition to_datetime :: "(string \<Rightarrow> int option) \<Rightarrow> date_cell \<Rightarrow> int option" where
  "to_datetime parse_date c =
     (case c of Stamp t \<Rightarrow> Some t | DateText s \<Rightarrow> parse_date s | NaT \<Rightarrow> None)"

definition as_date_cell :: "int option \<Rightarrow> date_cell" where
  "as_date_cell v = (case v of None \<Rightarrow> NaT | Some t \<Rightarrow> Stamp t)"

definition unparsable :: "(string \<Rightarrow> int option) \<Rightarrow> date_cell \<Rightarrow> bool" where
  "unparsable parse_date c = (case c of DateText s \<Rightarrow> parse_date s = None | _ \<Rightarrow> False)"

text \<open>
  \<open>load_sales_data\<close>, on the dataset as decoded: the posting dates are parsed (strictly),
  a column \<open>Overdue Days\<close> of the file is dropped, the due dates are parsed where the
  column exists, and \<open>Display_State\<close> is the ship-to state, or the ship-to city where
  the state is missing.
\<close>

definition load_sales_data :: "(string \<Rightarrow> int option) \<Rightarrow> so_frame \<Rightarrow> error + so_frame" where
  "load_sales_data parse_date df =
     (if ''Posting Date'' \<notin> set (so_columns df) then Inl KeyError
      else if \<exists>r \<in> set (so_lines df). unparsable parse_date (posting_date r) then Inl ValueError
      else
        let rows1 = map (\<lambda>r. r\<lparr>posting_date := as_date_cell (to_datetime parse_date (posting_date r))\<rparr>)
                      (so_lines df);
            cols1 = filter (\<lambda>c. c \<noteq> ''Overdue Days'') (so_columns df);
            rows2 = (if ''Due Date'' \<in> set cols1
                     then map (\<lambda>r. r\<lparr>due_date := as_date_cell (to_datetime parse_date (due_date r))\<rparr>) rows1
                     else rows1)
        in if ''Ship-To-State'' \<notin> set cols1 \<or> ''Ship-to-city'' \<notin> set cols1 then Inl KeyError
           else Inr \<lparr>so_columns = (if ''Display_State'' \<in> set cols1 then cols1
                                     else cols1 @ [''Display_State'']),
                     so_lines = map (\<lambda>r. r\<lparr>display_state :=
                                  (case ship_to_state r of Missing \<Rightarrow> ship_to_city r | c \<Rightarrow> c)\<rparr>) rows2\<rparr>)"




text \<open>
  \<open>Overdue Days\<close> of a line; \<open>None\<close> is NaN.  \<open>today\<close> is the normalised timestamp
  of the day of the run; \<open>.dt.days\<close> is the floor of the difference in days.
\<close>

definition ns_per_day :: int where
  "ns_per_day = 86400000000000"

definition overdue_days :: "(string \<Rightarrow> int option) \<Rightarrow> int \<Rightarrow> so_frame \<Rightarrow> so_line \<Rightarrow> int option" where
  "overdue_days parse_date today df r =
     (if ''Posting Date'' \<in> set (so_columns df)
      then (case to_datetime parse_date (posting_date r) of
              None \<Rightarrow> None
            | Some p \<Rightarrow> Some ((today - p) div ns_per_day))
      else Some 0)"

text \<open>
  \<open>pd.cut(x, bins, labels, right=True)\<close>: the index of the interval \<open>(a, b]\<close> between
  neighbouring bin edges that holds \<open>x\<close>; no bucket for a value outside all of them or
  for NaN.
\<close>

fun cut_right :: "int list \<Rightarrow> int \<Rightarrow> nat option" where
  "cut_right (a # b # bs) x =
     (if a < x \<and> x \<le> b then Some 0 else map_option Suc (cut_right (b # bs) x))"
| "cut_right bs x = None"

definition bins :: "int list" where
  "bins = [0, 15, 30, 60, 90, 9999]"


definition age_bucket :: "int option \<Rightarrow> nat option" where
  "age_bucket days = (case days of None \<Rightarrow> None | Some x \<Rightarrow> cut_right bins x)"




text \<open>A sales-order line for the examples: open, one unit, a given amount and posting date.\<close>

definition so_columns_all :: "string list" where
  "so_columns_all =
     [''Line Status'', ''OpenQty'', ''LineTotalBeforeTax'', ''Posting Date'', ''Due Date'',
      ''Ship-To-State'', ''Ship-to-city'']"

definition open_line :: "rat \<Rightarrow> date_cell \<Rightarrow> so_line" where
  "open_line amount posted =
     \<lparr>line_status = Txt ''O'', open_qty = Num 1, line_total = Num amount,
      posting_date = posted, due_date = NaT, ship_to_state = Missing, ship_to_city = Missing,
      display_state = Missing\<rparr>"


section \<open>Loading the stock-ageing dataset\<close>

text \<open>
  An exception is its class and its text (\<open>str(exc)\<close>).  The world outside the
  program is a parameter: the \<open>[ftp]\<close> section of the secrets (\<open>None\<close> when the
  section is missing), what the FTP server answers to the retrieval of a path, and what
  pandas makes of the bytes.
\<close>

type_synonym exn = "error \<times> string"

record ftp_world =
  ftp_section :: "(string \<rightharpoonup> string) option"
  retrbinary :: "string \<Rightarrow> exn + string"
  pd_read_excel :: "string \<Rightarrow> exn + dataframe"
  pd_read_csv :: "string \<Rightarrow> exn + dataframe"

definition ftp_config :: "ftp_world \<Rightarrow> exn + (string \<rightharpoonup> string)" where
  "ftp_config w =
     (case ftp_section w of
        None \<Rightarrow> Inl (KeyError, ''Missing [ftp] section in .streamlit/secrets.toml'')
      | Some config \<Rightarrow> Inr config)"

definition get_ftp_path :: "ftp_world \<Rightarrow> string \<Rightarrow> exn + string" where
  "get_ftp_path w secret_key =
     (case ftp_config w of
        Inl e \<Rightarrow> Inl e
      | Inr config \<Rightarrow> Inr (case config secret_key of None \<Rightarrow> '''' | Some path \<Rightarrow> path))"








text \<open>The candidate paths, in the order in which they are added.\<close>

definition add_candidate :: "string \<Rightarrow> string list \<Rightarrow> string list" where
  "add_candidate path candidate_paths =
     (if path \<noteq> [] \<and> path \<notin> set candidate_paths then candidate_paths @ [path]
      else candidate_paths)"

text \<open>\<open>path.rsplit("/", 1)[0]\<close> for a path that holds a \<open>/\<close>: what stands before the last one.\<close>

definition base_dir_of :: "string \<Rightarrow> string" where
  "base_dir_of path = rev (tl (dropWhile (\<lambda>c. c \<noteq> CHR ''/'') (rev path)))"

definition well_known_names :: "string list" where
  "well_known_names =
     [''Inventory_Ageing_Report.xlsx'', ''inventory_ageing_report.csv'', ''stock agenging.xlsx'',
      ''stock ageing.xlsx'', ''stock_ageing.xlsx'']"

definition candidate_paths :: "ftp_world \<Rightarrow> exn + string list" where
  "candidate_paths w =
     (case get_ftp_path w ''inventory'' of
        Inl e \<Rightarrow> Inl e
      | Inr configured_path \<Rightarrow>
     (case get_ftp_path w ''stock_ageing'' of
        Inl e \<Rightarrow> Inl e
      | Inr stock_ageing \<Rightarrow>
     (case get_ftp_path w ''inventory_ageing'' of
        Inl e \<Rightarrow> Inl e
      | Inr inventory_ageing \<Rightarrow>
          let c3 = add_candidate inventory_ageing
                     (add_candidate stock_ageing (add_candidate configured_path []))
          in if configured_path \<noteq> [] \<and> CHR ''/'' \<in> set configured_path
             then Inr (fold (\<lambda>name. add_candidate (base_dir_of configured_path @ ''/'' @ name))
                         well_known_names c3)
             else Inr c3)))"
















section \<open>Evaluation rules\<close>

text \<open>Conditional forms of the recursive equations, for evaluation at concrete inputs.\<close>

lemma str_nat_lt: "n < 10 \<Longrightarrow> str_nat n = [digit_char n]"
  by (simp add: str_nat.simps)

lemma str_nat_ge: "\<not> n < 10 \<Longrightarrow> str_nat n = str_nat (n div 10) @ [digit_char (n mod 10)]"
  by (subst str_nat.simps) simp

lemma group_loop_Nil: "group_loop [] r = r"
  by (simp add: group_loop.simps)

lemma group_loop_Cons:
  "group_loop (c # s) r =
     group_loop (take (length (c # s) - 2) (c # s)) (drop (length (c # s) - 2) (c # s) @ '','' @ r)"
  by (subst group_loop.simps) simp

lemmas fmt_eval =
  str_nat_lt str_nat_ge digit_char_def py_int_def group_loop_Nil group_loop_Cons
  format_number_def full_format_def abbreviated_def with_currency_def rstrip_chars_def

lemmas fl_eval = fl_def bin_exp_def scale2_def rne_def bitlen_def compute_floorlog

lemma fl_15: "fl 15 = 15"
  by code_simp

lemma fl_5_4: "fl (5 / 4) = 5 / 4"
  by code_simp

section \<open>The loop of \<open>format_indian\<close>\<close>

lemma rev_group_loop: "rev (group_loop s r) = rev r @ rgroups (rev s)"
proof (induction s r rule: group_loop.induct)
  case (1 s r)
  show ?case
  proof (cases "s = []")
    case True
    then show ?thesis by (simp add: group_loop_Nil)
  next
    case False
    have "rev (group_loop s r) = rev (drop (length s - 2) s @ '','' @ r) @ rgroups (rev (take (length s - 2) s))"
      using False "1.IH" by (subst group_loop.simps) simp
    also have "rev (take (length s - 2) s) = drop 2 (rev s)"
      by (cases "2 \<le> length s") (simp_all add: rev_take)
    also have "rev (drop (length s - 2) s @ '','' @ r) = rev r @ CHR '','' # take 2 (rev s)"
      by (cases "2 \<le> length s") (simp_all add: rev_drop)
    finally show ?thesis using False by (cases "rev s") auto
  qed
qed

lemma rgroups_commas:
  "CHR '','' \<notin> set ys \<Longrightarrow> j < length (rgroups ys) \<Longrightarrow> (rgroups ys ! j = CHR '','') = (j mod 3 = 0)"
proof (induction ys arbitrary: j rule: rgroups.induct)
  case 1
  then show ?case by simp
next
  case (2 a as)
  show ?case
  proof (cases as)
    case Nil
    then show ?thesis using "2.prems" by (auto simp: nth_Cons' less_Suc_eq)
  next
    case (Cons b bs)
    have nc: "a \<noteq> CHR '',''" "b \<noteq> CHR '',''" "CHR '','' \<notin> set bs"
      using "2.prems"(1) Cons by auto
    have eq: "rgroups (a # as) = CHR '','' # a # b # rgroups bs"
      using Cons by simp
    show ?thesis
    proof (cases "j < 3")
      case True
      then have "j = 0 \<or> j = 1 \<or> j = 2" by auto
      then show ?thesis using nc eq by auto
    next
      case False
      then obtain k where k: "j = k + 3" by (metis add.commute le_Suc_ex not_less)
      have "k < length (rgroups bs)" using "2.prems"(2) unfolding eq k by simp
      then have "(rgroups bs ! k = CHR '','') = (k mod 3 = 0)"
        using "2.IH" nc(3) Cons by simp
      moreover have "rgroups (a # as) ! j = rgroups bs ! k"
        unfolding eq k by (simp add: numeral_3_eq_3)
      moreover have "j mod 3 = k mod 3" unfolding k by simp
      ultimately show ?thesis by simp
    qed
  qed
qed

lemma last_rgroups: "ys \<noteq> [] \<Longrightarrow> last (rgroups ys) \<in> set ys"
proof (induction ys rule: rgroups.induct)
  case 1
  then show ?case by simp
next
  case (2 a as)
  show ?case
  proof (cases as)
    case Nil
    then show ?thesis by simp
  next
    case (Cons b bs)
    then show ?thesis using "2.IH" by (cases bs) auto
  qed
qed

lemma filter_rgroups: "CHR '','' \<notin> set ys \<Longrightarrow> filter (\<lambda>c. c \<noteq> CHR '','') (rgroups ys) = ys"
proof (induction ys rule: rgroups.induct)
  case 1
  then show ?case by simp
next
  case (2 a as)
  then show ?case by (cases as) auto
qed

lemma digit_char_no_comma: "d < 10 \<Longrightarrow> digit_char d \<noteq> CHR '',''"
proof -
  assume "d < 10"
  then have "digit_char d \<in> set ''0123456789''"
    unfolding digit_char_def by (intro nth_mem) simp
  then show ?thesis by auto
qed

lemma str_nat_no_comma: "CHR '','' \<notin> set (str_nat n)"
proof (induction n rule: str_nat.induct)
  case (1 n)
  show ?case
  proof (cases "n < 10")
    case True
    then show ?thesis using digit_char_no_comma [of n] by (simp add: str_nat_lt)
  next
    case False
    then show ?thesis using "1.IH" digit_char_no_comma [of "n mod 10"] by (simp add: str_nat_ge)
  qed
qed

lemma str_nat_nonempty: "str_nat n \<noteq> []"
  by (cases "n < 10") (simp_all add: str_nat_lt str_nat_ge)

lemma list_all_enumerate:
  "list_all (\<lambda>(i, c). P i c) (enumerate 0 xs) = (\<forall>j < length xs. P j (xs ! j))"
  by (simp add: list_all_length nth_enumerate_eq)

lemma indian_grouped_short:
  assumes "CHR '','' \<notin> set s" "s \<noteq> []" "length s \<le> 3"
  shows "indian_grouped s s"
proof -
  have "hd s \<in> set s" using assms(2) by simp
  then have h: "hd s \<noteq> CHR '',''" using assms(1) by metis
  have "\<forall>j < length (rev s). (rev s ! j = CHR '','') = (3 \<le> j \<and> j mod 3 = 0)"
  proof (intro allI impI)
    fix j assume j: "j < length (rev s)"
    then have "rev s ! j \<in> set (rev s)" by (rule nth_mem)
    then have "rev s ! j \<noteq> CHR '',''" using assms(1) by auto
    moreover have "\<not> 3 \<le> j" using j assms(3) by simp
    ultimately show "(rev s ! j = CHR '','') = (3 \<le> j \<and> j mod 3 = 0)" by simp
  qed
  then show ?thesis
    using assms h by (auto simp: indian_grouped_def list_all_enumerate filter_id_conv)
qed

lemma indian_grouped_long:
  assumes nc: "CHR '','' \<notin> set s" and len: "3 < length s"
  shows "indian_grouped s (group_loop (take (length s - 3) s) (drop (length s - 3) s))"
proof -
  let ?out = "group_loop (take (length s - 3) s) (drop (length s - 3) s)"
  let ?rs = "rev s"
  have r: "rev ?out = take 3 ?rs @ rgroups (drop 3 ?rs)"
    using len by (simp add: rev_group_loop rev_take rev_drop)
  have nc3: "CHR '','' \<notin> set (drop 3 ?rs)" using nc by (auto dest: in_set_dropD)
  have ne3: "drop 3 ?rs \<noteq> []" using len by simp
  have "\<forall>c \<in> set (take 3 ?rs). c \<noteq> CHR '',''"
    using nc by (auto dest: in_set_takeD)
  then have "filter (\<lambda>c. c \<noteq> CHR '','') (take 3 ?rs) = take 3 ?rs"
    by (simp add: filter_id_conv)
  then have "filter (\<lambda>c. c \<noteq> CHR '','') (rev ?out) = take 3 ?rs @ drop 3 ?rs"
    using nc3 by (simp add: r filter_rgroups)
  then have "rev (filter (\<lambda>c. c \<noteq> CHR '','') ?out) = ?rs"
    by (simp add: rev_filter)
  then have f: "filter (\<lambda>c. c \<noteq> CHR '','') ?out = s" by simp
  have ne: "?out \<noteq> []" using f len by auto
  have "rgroups (drop 3 ?rs) \<noteq> []"
    using ne3 by (cases "drop 3 ?rs") simp_all
  then have "last (rev ?out) \<in> set (drop 3 ?rs)"
    using last_rgroups [OF ne3] by (simp add: r)
  then have "last (rev ?out) \<noteq> CHR '',''" using nc3 by metis
  then have h: "hd ?out \<noteq> CHR '',''" using ne by (simp add: last_rev)
  have "\<forall>j < length (rev ?out). (rev ?out ! j = CHR '','') = (3 \<le> j \<and> j mod 3 = 0)"
  proof (intro allI impI)
    fix j assume j: "j < length (rev ?out)"
    have l3: "length (take 3 ?rs) = 3" using len by simp
    show "(rev ?out ! j = CHR '','') = (3 \<le> j \<and> j mod 3 = 0)"
    proof (cases "j < 3")
      case True
      then have "rev ?out ! j = take 3 ?rs ! j" using l3 by (simp add: r nth_append)
      moreover have "take 3 ?rs ! j \<in> set (take 3 ?rs)" using True l3 by (intro nth_mem) simp
      ultimately have "rev ?out ! j \<noteq> CHR '',''" using nc by (auto dest: in_set_takeD)
      then show ?thesis using True by simp
    next
      case False
      then obtain k where k: "j = k + 3" by (metis add.commute le_Suc_ex not_less)
      have kl: "k < length (rgroups (drop 3 ?rs))" using j l3 k unfolding r by simp
      have "rev ?out ! j = rgroups (drop 3 ?rs) ! k"
        unfolding r using l3 k by (simp add: nth_append)
      then show ?thesis using rgroups_commas [OF nc3 kl] k by simp
    qed
  qed
  then show ?thesis using f ne h by (simp add: indian_grouped_def list_all_enumerate)
qed

lemma py_int_magnitude: "nat \<bar>py_int x\<bar> = nat \<lfloor>\<bar>x\<bar>\<rfloor>"
  by (auto simp: py_int_def abs_if ceiling_def)

lemma format_indian_finite:
  assumes "nat \<lfloor>\<bar>x\<bar>\<rfloor> \<noteq> 0"
  shows "\<exists>body. format_indian (Fin x) = Inr ((if x < 0 then ''-'' else '''') @ body) \<and>
           indian_grouped (str_nat (nat \<lfloor>\<bar>x\<bar>\<rfloor>)) body"
proof -
  let ?s = "str_nat (nat \<lfloor>\<bar>x\<bar>\<rfloor>)"
  let ?sign = "if x < 0 then ''-'' else ''''"
  have sg: "(if 0 \<le> x then '''' else ''-'') = ?sign" by auto
  have fi: "format_indian (Fin x) =
      (if length ?s \<le> 3 then Inr (?sign @ ?s)
       else Inr (?sign @ group_loop (take (length ?s - 3) ?s) (drop (length ?s - 3) ?s)))"
    unfolding format_indian.simps py_int_magnitude Let_def sg using assms by (simp only: if_False)
  show ?thesis
  proof (cases "length ?s \<le> 3")
    case True
    then have "format_indian (Fin x) = Inr (?sign @ ?s)"
      unfolding fi by (simp only: if_True)
    then show ?thesis
      using indian_grouped_short [OF str_nat_no_comma str_nat_nonempty True] by blast
  next
    case False
    then have "format_indian (Fin x) = Inr (?sign @ group_loop (take (length ?s - 3) ?s) (drop (length ?s - 3) ?s))"
      unfolding fi by (simp only: if_False)
    moreover have "3 < length ?s" using False by simp
    ultimately show ?thesis
      using indian_grouped_long [OF str_nat_no_comma, of "nat \<lfloor>\<bar>x\<bar>\<rfloor>"] by blast
  qed
qed

section \<open>The abbreviated rendering\<close>

lemma digit_char_in: "d < 10 \<Longrightarrow> digit_char d \<in> set ''0123456789''"
  unfolding digit_char_def by (intro nth_mem) simp

lemma str_nat_digits: "set (str_nat n) \<subseteq> set ''0123456789''"
proof (induction n rule: str_nat.induct)
  case (1 n)
  show ?case
  proof (cases "n < 10")
    case True
    then show ?thesis using digit_char_in [of n] by (simp add: str_nat_lt)
  next
    case False
    then show ?thesis using "1.IH" digit_char_in [of "n mod 10"] by (simp add: str_nat_ge)
  qed
qed

lemma trim_two_decimals:
  assumes "CHR ''.'' \<notin> set ip" "d1 \<noteq> CHR ''.''" "d2 \<noteq> CHR ''.''"
  shows "rstrip_chars ''.'' (rstrip_chars ''0'' (ip @ ''.'' @ [d1, d2])) =
           (if d2 \<noteq> CHR ''0'' then ip @ ''.'' @ [d1, d2]
            else if d1 \<noteq> CHR ''0'' then ip @ ''.'' @ [d1] else ip)"
proof -
  have "dropWhile (\<lambda>c. c = CHR ''.'') (rev ip) = rev ip"
    using assms(1) by (cases "rev ip") (auto simp: dropWhile_eq_self_iff)
  then show ?thesis using assms by (simp add: rstrip_chars_def)
qed

lemma fmt2_shape:
  "\<exists>ip d1 d2. fmt2 (Fin x) = ip @ ''.'' @ [d1, d2] \<and> CHR ''.'' \<notin> set ip \<and>
      d1 \<noteq> CHR ''.'' \<and> d2 \<noteq> CHR ''.''"
proof -
  let ?n = "nat (rne (\<bar>x\<bar> * 100))"
  let ?ip = "(if x < 0 then ''-'' else '''') @ str_nat (?n div 100)"
  let ?d1 = "digit_char (?n mod 100 div 10)"
  let ?d2 = "digit_char (?n mod 10)"
  have "fmt2 (Fin x) = ?ip @ ''.'' @ [?d1, ?d2]" by (simp add: Let_def)
  moreover have "CHR ''.'' \<notin> set ?ip" using str_nat_digits [of "?n div 100"] by auto
  moreover have "?n mod 100 div 10 < 10" by (rule less_mult_imp_div_less) simp
  then have "?d1 \<noteq> CHR ''.''" using digit_char_in [of "?n mod 100 div 10"] by auto
  moreover have "?d2 \<noteq> CHR ''.''" using digit_char_in [of "?n mod 10"] by auto
  ultimately show ?thesis by blast
qed

lemma abbreviated_finite:
  "\<exists>ip d1 d2. fmt2 (Fin x) = ip @ ''.'' @ [d1, d2] \<and>
     abbreviated (Fin x) suffix cur =
       with_currency cur
         ((if d2 \<noteq> CHR ''0'' then ip @ ''.'' @ [d1, d2]
           else if d1 \<noteq> CHR ''0'' then ip @ ''.'' @ [d1] else ip) @ suffix)"
proof -
  obtain ip d1 d2 where s: "fmt2 (Fin x) = ip @ ''.'' @ [d1, d2]" "CHR ''.'' \<notin> set ip"
      "d1 \<noteq> CHR ''.''" "d2 \<noteq> CHR ''.''"
    using fmt2_shape by blast
  have "abbreviated (Fin x) suffix cur =
       with_currency cur
         ((if d2 \<noteq> CHR ''0'' then ip @ ''.'' @ [d1, d2]
           else if d1 \<noteq> CHR ''0'' then ip @ ''.'' @ [d1] else ip) @ suffix)"
    unfolding abbreviated_def Let_def s(1) trim_two_decimals [OF s(2-4)] by (rule refl)
  with s(1) show ?thesis by blast
qed

lemma full_format_finite:
  "\<exists>s. format_indian (Fin x) = Inr s \<and> full_format (Fin x) cur = Inr (with_currency cur s)"
  by (simp add: full_format_def Let_def)

lemma format_number_short:
  assumes "v \<noteq> NaN"
  shows "format_number v cur True =
    (if fge (fabs v) 10000000 then Inr (abbreviated (fdiv v 10000000) ''Cr'' cur)
     else if fge (fabs v) 100000 then Inr (abbreviated (fdiv v 100000) ''L'' cur)
     else if fge (fabs v) 1000 then Inr (abbreviated (fdiv v 1000) ''K'' cur)
     else full_format v cur)"
  using assms by (simp add: format_number_def Let_def)

section \<open>The number formatter: C7, C6, C9\<close>

text \<open>
  C7, where it fails.  An input strictly between -1 and 0 is negative, yet its rendering
  is \<open>"0"\<close> with no sign: \<open>format_indian\<close> tests for zero after truncating to the
  integer magnitude.
\<close>

theorem format_indian_sign_counterexample:
  "(- 1 / 2 :: rat) < 0 \<and> format_indian (Fin (- 1 / 2)) = Inr ''0'' \<and>
   \<not> (\<exists>body. format_indian (Fin (- 1 / 2)) = Inr (''-'' @ body))"
  by (simp add: py_int_def)

text \<open>
  C7, amended.  \<open>format_indian\<close> renders the integer magnitude of its input (the
  floor of the absolute value) in Indian grouping: the last 3 digits as one group
  and every further group of 2 digits to the left, separated by commas.  A
  leading \<open>-\<close> is written for a negative input whose integer magnitude is not zero;
  the result is \<open>"0"\<close> whenever the integer magnitude is zero (every input strictly
  between -1 and 1) and for NaN.  In particular 1234567 gives \<open>"12,34,567"\<close>, 100 gives
  \<open>"100"\<close> and -5000 gives \<open>"-5,000"\<close>.
\<close>

theorem format_indian_grouping:
  "format_indian NaN = Inr ''0'' \<and>
   (\<forall>x. nat \<lfloor>\<bar>x\<bar>\<rfloor> = 0 \<longrightarrow> format_indian (Fin x) = Inr ''0'') \<and>
   (\<forall>x. nat \<lfloor>\<bar>x\<bar>\<rfloor> \<noteq> 0 \<longrightarrow>
      (\<exists>body. format_indian (Fin x) = Inr ((if x < 0 then ''-'' else '''') @ body) \<and>
         indian_grouped (str_nat (nat \<lfloor>\<bar>x\<bar>\<rfloor>)) body)) \<and>
   format_indian (Fin 1234567) = Inr ''12,34,567'' \<and>
   format_indian (Fin 100) = Inr ''100'' \<and>
   format_indian (Fin (- 5000)) = Inr ''-5,000''"
proof (intro conjI allI impI)
  show "format_indian NaN = Inr ''0''" by simp
next
  fix x :: rat
  assume "nat \<lfloor>\<bar>x\<bar>\<rfloor> = 0"
  then show "format_indian (Fin x) = Inr ''0''"
    unfolding format_indian.simps py_int_magnitude Let_def by (simp only: simp_thms if_True)
next
  fix x :: rat
  assume "nat \<lfloor>\<bar>x\<bar>\<rfloor> \<noteq> 0"
  then show "\<exists>body. format_indian (Fin x) = Inr ((if x < 0 then ''-'' else '''') @ body) \<and>
         indian_grouped (str_nat (nat \<lfloor>\<bar>x\<bar>\<rfloor>)) body"
    by (rule format_indian_finite)
next
  show "format_indian (Fin 1234567) = Inr ''12,34,567''" by (simp add: fmt_eval)
next
  show "format_indian (Fin 100) = Inr ''100''" by (simp add: fmt_eval)
next
  show "format_indian (Fin (- 5000)) = Inr ''-5,000''" by (simp add: fmt_eval)
qed

text \<open>
  The amended C7 at the input -5000: the integer magnitude 5000 is not zero, and the
  rendering is a \<open>-\<close> followed by a grouping of the digits \<open>5000\<close>.
\<close>

theorem format_indian_grouping_witness:
  "nat \<lfloor>\<bar>- 5000 :: rat\<bar>\<rfloor> \<noteq> 0 \<and>
   (\<exists>body. format_indian (Fin (- 5000)) = Inr (''-'' @ body) \<and> indian_grouped ''5000'' body)"
proof -
  have h: "nat \<lfloor>\<bar>- 5000 :: rat\<bar>\<rfloor> \<noteq> 0" by simp
  have d: "str_nat (nat \<lfloor>\<bar>- 5000 :: rat\<bar>\<rfloor>) = ''5000''" by (simp add: fmt_eval)
  from format_indian_grouping h
  have "\<exists>body. format_indian (Fin (- 5000)) = Inr ((if (- 5000 :: rat) < 0 then ''-'' else '''') @ body) \<and>
         indian_grouped (str_nat (nat \<lfloor>\<bar>- 5000 :: rat\<bar>\<rfloor>)) body"
    by blast
  then show ?thesis using h unfolding d by simp
qed

text \<open>
  The rounding of the two-decimal rendering, the thresholds on the magnitude of a finite
  value, and the binary64 quotients and renderings of the examples.
\<close>

lemma rne_near: "\<bar>of_int (rne y) - y\<bar> \<le> 1 / 2"
proof -
  define f where "f = \<lfloor>y\<rfloor>"
  define r where "r = y - of_int f"
  have r0: "0 \<le> r" and r1: "r < 1" unfolding r_def f_def by linarith+
  have y: "y = of_int f + r" by (simp add: r_def)
  have "rne y = (if r < 1 / 2 then f else if 1 / 2 < r then f + 1 else if even f then f else f + 1)"
    by (simp add: rne_def Let_def f_def r_def)
  then show ?thesis using r0 r1 unfolding y by (auto split: if_splits)
qed

lemma rne_nonneg: "0 \<le> y \<Longrightarrow> 0 \<le> rne y"
proof -
  assume "0 \<le> y"
  then have "0 \<le> \<lfloor>y\<rfloor>" by simp
  then show ?thesis by (auto simp: rne_def Let_def)
qed

lemma fmt2_rounds:
  "\<exists>n. \<bar>of_nat n - \<bar>x\<bar> * 100\<bar> \<le> 1 / 2 \<and>
     fmt2 (Fin x) = (if x < 0 then ''-'' else '''') @ str_nat (n div 100) @ ''.'' @
       [digit_char (n mod 100 div 10), digit_char (n mod 10)]"
proof -
  let ?n = "nat (rne (\<bar>x\<bar> * 100))"
  have "0 \<le> rne (\<bar>x\<bar> * 100)" by (rule rne_nonneg) simp
  then have eq: "(of_nat ?n :: rat) = of_int (rne (\<bar>x\<bar> * 100))" by simp
  have "\<bar>of_nat ?n - \<bar>x\<bar> * 100\<bar> \<le> 1 / 2" unfolding eq by (rule rne_near)
  moreover have "fmt2 (Fin x) = (if x < 0 then ''-'' else '''') @ str_nat (?n div 100) @ ''.'' @
       [digit_char (?n mod 100 div 10), digit_char (?n mod 10)]"
    by (simp add: Let_def)
  ultimately show ?thesis by blast
qed

lemma with_currency_alt: "with_currency cur s = (if cur then rupee @ '' '' else '''') @ s"
  by (simp add: with_currency_def)

lemma abbreviated_explicit:
  "\<exists>ip d1 d2. fmt2 (Fin q) = ip @ ''.'' @ [d1, d2] \<and>
     abbreviated (Fin q) suffix cur =
       (if cur then rupee @ '' '' else '''') @
         (if d2 \<noteq> CHR ''0'' then ip @ ''.'' @ [d1, d2]
          else if d1 \<noteq> CHR ''0'' then ip @ ''.'' @ [d1] else ip) @ suffix"
  using abbreviated_finite [of q suffix cur] unfolding with_currency_alt by (simp only: append_assoc)

lemma format_number_crore:
  assumes "10000000 \<le> \<bar>x\<bar>"
  shows "format_number (Fin x) cur True = Inr (abbreviated (Fin (fl (x / 10000000))) ''Cr'' cur)"
  using assms by (simp add: format_number_def Let_def)

lemma format_number_lakh:
  assumes "100000 \<le> \<bar>x\<bar>" "\<bar>x\<bar> < 10000000"
  shows "format_number (Fin x) cur True = Inr (abbreviated (Fin (fl (x / 100000))) ''L'' cur)"
  using assms by (simp add: format_number_def Let_def)

lemma format_number_thousand:
  assumes "1000 \<le> \<bar>x\<bar>" "\<bar>x\<bar> < 100000"
  shows "format_number (Fin x) cur True = Inr (abbreviated (Fin (fl (x / 1000))) ''K'' cur)"
  using assms by (simp add: format_number_def Let_def)

lemma format_number_small:
  assumes "\<bar>x\<bar> < 1000"
  shows "\<exists>s. format_indian (Fin x) = Inr s \<and>
     format_number (Fin x) cur True = Inr ((if cur then rupee @ '' '' else '''') @ s)"
  using assms by (simp add: format_number_def full_format_def with_currency_def Let_def)

lemma fl_m15: "fl (- 15) = - 15" by code_simp
lemma fl_203_200: "fl (203 / 200) = 4571153621781053 / 4503599627370496" by code_simp
lemma fl_1: "fl 1 = 1" by code_simp
lemma fl_9_8: "fl (9 / 8) = 9 / 8" by code_simp
lemma fl_m5_2: "fl (- (5 / 2)) = - (5 / 2)" by code_simp
lemma fl_3_2: "fl (3 / 2) = 3 / 2" by code_simp
lemma fl_99: "fl (199999 / 2000) = 7036839233394311 / 70368744177664" by code_simp

lemma rne_x2: "rne (\<bar>4571153621781053 / 4503599627370496\<bar> * 100) = 101" by code_simp

lemma fmt2_x2: "fmt2 (Fin (4571153621781053 / 4503599627370496)) = ''1.01''"
  unfolding fmt2.simps rne_x2 by (simp add: fmt_eval)

lemma rne_x7: "rne (\<bar>7036839233394311 / 70368744177664\<bar> * 100) = 10000" by code_simp

lemma fmt2_x7: "fmt2 (Fin (7036839233394311 / 70368744177664)) = ''100.00''"
  unfolding fmt2.simps rne_x7 by (simp add: fmt_eval)

lemma rne_x4: "rne (\<bar>9 / 8\<bar> * 100) = 112" by code_simp

lemma fmt2_x4: "fmt2 (Fin (9 / 8)) = ''1.12''"
  unfolding fmt2.simps rne_x4 by (simp add: fmt_eval)

text \<open>
  C6.  With abbreviation enabled, a finite value \<open>v\<close> is rendered by its magnitude
  \<open>|v|\<close>: from ten million on, \<open>v / 10000000\<close> with the suffix \<open>Cr\<close>; else from one
  hundred thousand on, \<open>v / 100000\<close> with \<open>L\<close>; else from one thousand on, \<open>v / 1000\<close>
  with \<open>K\<close>; below one thousand, the full Indian-grouped format, which has no suffix.
  The quotient is first written with exactly two decimals, \<open>ip.d1d2\<close>, the hundredth
  nearest to its magnitude; then trailing zeros and a trailing point are removed, which
  leaves \<open>ip.d1d2\<close>, \<open>ip.d1\<close> or \<open>ip\<close>.  With \<open>currency\<close> the rupee glyph and a space
  stand in front.  The currency rendering of 1,500,000 is the glyph, a space and
  \<open>15L\<close>; that of 12,500,000 is the glyph, a space and \<open>1.25Cr\<close>; a negative value is
  abbreviated like its magnitude, with its sign.
\<close>

theorem format_number_abbreviation:
  "(\<forall>x cur. 10000000 \<le> \<bar>x\<bar> \<longrightarrow>
      (\<exists>ip d1 d2. fmt2 (Fin (fl (x / 10000000))) = ip @ ''.'' @ [d1, d2] \<and>
         format_number (Fin x) cur True =
           Inr ((if cur then rupee @ '' '' else '''') @
                (if d2 \<noteq> CHR ''0'' then ip @ ''.'' @ [d1, d2]
                 else if d1 \<noteq> CHR ''0'' then ip @ ''.'' @ [d1] else ip) @ ''Cr''))) \<and>
   (\<forall>x cur. 100000 \<le> \<bar>x\<bar> \<and> \<bar>x\<bar> < 10000000 \<longrightarrow>
      (\<exists>ip d1 d2. fmt2 (Fin (fl (x / 100000))) = ip @ ''.'' @ [d1, d2] \<and>
         format_number (Fin x) cur True =
           Inr ((if cur then rupee @ '' '' else '''') @
                (if d2 \<noteq> CHR ''0'' then ip @ ''.'' @ [d1, d2]
                 else if d1 \<noteq> CHR ''0'' then ip @ ''.'' @ [d1] else ip) @ ''L''))) \<and>
   (\<forall>x cur. 1000 \<le> \<bar>x\<bar> \<and> \<bar>x\<bar> < 100000 \<longrightarrow>
      (\<exists>ip d1 d2. fmt2 (Fin (fl (x / 1000))) = ip @ ''.'' @ [d1, d2] \<and>
         format_number (Fin x) cur True =
           Inr ((if cur then rupee @ '' '' else '''') @
                (if d2 \<noteq> CHR ''0'' then ip @ ''.'' @ [d1, d2]
                 else if d1 \<noteq> CHR ''0'' then ip @ ''.'' @ [d1] else ip) @ ''K''))) \<and>
   (\<forall>x cur. \<bar>x\<bar> < 1000 \<longrightarrow>
      (\<exists>s. format_indian (Fin x) = Inr s \<and>
         format_number (Fin x) cur True = Inr ((if cur then rupee @ '' '' else '''') @ s))) \<and>
   (\<forall>x. \<exists>n. \<bar>of_nat n - \<bar>x\<bar> * 100\<bar> \<le> 1 / 2 \<and>
      fmt2 (Fin x) = (if x < 0 then ''-'' else '''') @ str_nat (n div 100) @ ''.'' @
        [digit_char (n mod 100 div 10), digit_char (n mod 10)]) \<and>
   (\<forall>cur. format_number PosInf cur True = Inr ((if cur then rupee @ '' '' else '''') @ ''infCr'') \<and>
      format_number NegInf cur True = Inr ((if cur then rupee @ '' '' else '''') @ ''-infCr'')) \<and>
   format_number (Fin 1500000) True True = Inr (rupee @ '' 15L'') \<and>
   format_number (Fin 12500000) True True = Inr (rupee @ '' 1.25Cr'') \<and>
   format_number (Fin (- 1500000)) True True = Inr (rupee @ '' -15L'') \<and>
   format_number (Fin (- 2500)) True True = Inr (rupee @ '' -2.5K'') \<and>
   format_number (Fin 10150000) False True = Inr ''1.01Cr'' \<and>
   format_number (Fin 1500) False True = Inr ''1.5K'' \<and>
   format_number (Fin 1125) False True = Inr ''1.12K'' \<and>
   format_number (Fin 1000) False True = Inr ''1K'' \<and>
   format_number (Fin (199999 / 2)) False True = Inr ''100K'' \<and>
   format_number (Fin (- 999)) False True = Inr ''-999''"
proof (intro conjI allI impI)
  fix x :: rat and cur
  assume "10000000 \<le> \<bar>x\<bar>"
  then have "format_number (Fin x) cur True = Inr (abbreviated (Fin (fl (x / 10000000))) ''Cr'' cur)"
    by (rule format_number_crore)
  then show "\<exists>ip d1 d2. fmt2 (Fin (fl (x / 10000000))) = ip @ ''.'' @ [d1, d2] \<and>
         format_number (Fin x) cur True =
           Inr ((if cur then rupee @ '' '' else '''') @
                (if d2 \<noteq> CHR ''0'' then ip @ ''.'' @ [d1, d2]
                 else if d1 \<noteq> CHR ''0'' then ip @ ''.'' @ [d1] else ip) @ ''Cr'')"
    using abbreviated_explicit [of "fl (x / 10000000)" "''Cr''" cur] by auto
next
  fix x :: rat and cur
  assume "100000 \<le> \<bar>x\<bar> \<and> \<bar>x\<bar> < 10000000"
  then have "format_number (Fin x) cur True = Inr (abbreviated (Fin (fl (x / 100000))) ''L'' cur)"
    by (simp add: format_number_lakh)
  then show "\<exists>ip d1 d2. fmt2 (Fin (fl (x / 100000))) = ip @ ''.'' @ [d1, d2] \<and>
         format_number (Fin x) cur True =
           Inr ((if cur then rupee @ '' '' else '''') @
                (if d2 \<noteq> CHR ''0'' then ip @ ''.'' @ [d1, d2]
                 else if d1 \<noteq> CHR ''0'' then ip @ ''.'' @ [d1] else ip) @ ''L'')"
    using abbreviated_explicit [of "fl (x / 100000)" "''L''" cur] by auto
next
  fix x :: rat and cur
  assume "1000 \<le> \<bar>x\<bar> \<and> \<bar>x\<bar> < 100000"
  then have "format_number (Fin x) cur True = Inr (abbreviated (Fin (fl (x / 1000))) ''K'' cur)"
    by (simp add: format_number_thousand)
  then show "\<exists>ip d1 d2. fmt2 (Fin (fl (x / 1000))) = ip @ ''.'' @ [d1, d2] \<and>
         format_number (Fin x) cur True =
           Inr ((if cur then rupee @ '' '' else '''') @
                (if d2 \<noteq> CHR ''0'' then ip @ ''.'' @ [d1, d2]
                 else if d1 \<noteq> CHR ''0'' then ip @ ''.'' @ [d1] else ip) @ ''K'')"
    using abbreviated_explicit [of "fl (x / 1000)" "''K''" cur] by auto
next
  fix x :: rat and cur
  assume "\<bar>x\<bar> < 1000"
  then show "\<exists>s. format_indian (Fin x) = Inr s \<and>
         format_number (Fin x) cur True = Inr ((if cur then rupee @ '' '' else '''') @ s)"
    by (rule format_number_small)
next
  fix x :: rat
  show "\<exists>n. \<bar>of_nat n - \<bar>x\<bar> * 100\<bar> \<le> 1 / 2 \<and>
      fmt2 (Fin x) = (if x < 0 then ''-'' else '''') @ str_nat (n div 100) @ ''.'' @
        [digit_char (n mod 100 div 10), digit_char (n mod 10)]"
    by (rule fmt2_rounds)
next
  fix cur
  show "format_number PosInf cur True = Inr ((if cur then rupee @ '' '' else '''') @ ''infCr'')"
    by (simp add: fmt_eval)
  show "format_number NegInf cur True = Inr ((if cur then rupee @ '' '' else '''') @ ''-infCr'')"
    by (simp add: fmt_eval)
next
  show "format_number (Fin 1500000) True True = Inr (rupee @ '' 15L'')"
    by (simp add: fmt_eval fl_15 rne_def)
next
  show "format_number (Fin 12500000) True True = Inr (rupee @ '' 1.25Cr'')"
    by (simp add: fmt_eval fl_5_4 rne_def)
next
  show "format_number (Fin (- 1500000)) True True = Inr (rupee @ '' -15L'')"
    by (simp add: fmt_eval fl_m15 rne_def)
next
  show "format_number (Fin (- 2500)) True True = Inr (rupee @ '' -2.5K'')"
    by (simp add: fmt_eval fl_m5_2 rne_def)
next
  show "format_number (Fin 10150000) False True = Inr ''1.01Cr''"
    by (simp add: fmt_eval fl_203_200 fmt2_x2 del: fmt2.simps)
next
  show "format_number (Fin 1500) False True = Inr ''1.5K''"
    by (simp add: fmt_eval fl_3_2 rne_def)
next
  show "format_number (Fin 1125) False True = Inr ''1.12K''"
    by (simp add: fmt_eval fl_9_8 fmt2_x4 del: fmt2.simps)
next
  show "format_number (Fin 1000) False True = Inr ''1K''"
    by (simp add: fmt_eval fl_1 rne_def)
next
  show "format_number (Fin (199999 / 2)) False True = Inr ''100K''"
    by (simp add: fmt_eval fl_99 fmt2_x7 del: fmt2.simps)
next
  show "format_number (Fin (- 999)) False True = Inr ''-999''"
    by (simp add: fmt_eval)
qed

text \<open>
  C6 at the value -1,500,000 with the currency glyph: its magnitude lies between one
  hundred thousand and ten million, the quotient -15 is written \<open>-15.00\<close>, and zeros
  and point are removed before the suffix \<open>L\<close>.
\<close>

theorem format_number_abbreviation_witness:
  "(100000::rat) \<le> \<bar>- 1500000\<bar> \<and> \<bar>- 1500000 :: rat\<bar> < 10000000 \<and>
   fmt2 (Fin (fl (- 1500000 / 100000))) = ''-15.00'' \<and>
   format_number (Fin (- 1500000)) True True = Inr (rupee @ '' -15L'')"
proof -
  have h: "(100000::rat) \<le> \<bar>- 1500000\<bar> \<and> \<bar>- 1500000 :: rat\<bar> < 10000000" by simp
  have f: "fmt2 (Fin (fl (- 1500000 / 100000))) = ''-15.00''"
    by (simp add: fmt_eval fl_m15 rne_def)
  from format_number_abbreviation h
  obtain ip d1 d2 where s: "fmt2 (Fin (fl (- 1500000 / 100000))) = ip @ ''.'' @ [d1, d2]"
    and r: "format_number (Fin (- 1500000)) True True =
           Inr ((if True then rupee @ '' '' else '''') @
                (if d2 \<noteq> CHR ''0'' then ip @ ''.'' @ [d1, d2]
                 else if d1 \<noteq> CHR ''0'' then ip @ ''.'' @ [d1] else ip) @ ''L'')"
    by blast
  from s f have "ip @ [CHR ''.'', d1, d2] = ''-15'' @ [CHR ''.'', CHR ''0'', CHR ''0'']" by simp
  then have "ip = ''-15'' \<and> d1 = CHR ''0'' \<and> d2 = CHR ''0''" by simp
  then show ?thesis using h f r by simp
qed

text \<open>
  C9.  For every value \<open>v\<close> with \<open>0 \<le> v < 1000\<close> and either currency setting, the
  formatter gives the same string with abbreviation enabled as with abbreviation
  disabled: the full Indian-grouped rendering (behind the currency prefix when that is
  asked for), with no suffix.
\<close>

theorem format_number_below_thousand:
  "0 \<le> x \<Longrightarrow> x < 1000 \<Longrightarrow>
     format_number (Fin x) cur True = format_number (Fin x) cur False \<and>
     (\<exists>s. format_indian (Fin x) = Inr s \<and>
        format_number (Fin x) cur True = Inr (with_currency cur s))"
  by (simp add: format_number_def full_format_def Let_def)

text \<open>C9 at the value 999 with the currency prefix.\<close>

theorem format_number_below_thousand_witness:
  "(0::rat) \<le> 999 \<and> (999::rat) < 1000 \<and>
   format_number (Fin 999) True True = format_number (Fin 999) True False \<and>
   format_number (Fin 999) True True = Inr (rupee @ '' 999'')"
proof -
  have h1: "(0::rat) \<le> 999" and h2: "(999::rat) < 1000" by simp_all
  have "format_indian (Fin 999) = Inr ''999''" by (simp add: fmt_eval)
  then show ?thesis
    using format_number_below_thousand [OF h1 h2, of True] by (auto simp: with_currency_def)
qed

section \<open>Column reconciliation\<close>

lemma coerce_idem: "coerce parse (coerce parse c) = coerce parse c"
  by (simp add: coerce_def to_numeric_def fillna0_def)

lemma coerce_alt: "coerce parse c = (case to_numeric parse c of None \<Rightarrow> Num 0 | Some x \<Rightarrow> Num x)"
  by (simp add: coerce_def fillna0_def split: option.splits)

lemma columns_coerce_in: "columns (coerce_in parse S df) = columns df"
  by (induction df) (auto simp: coerce_in_def columns_def)

lemma coerce_in_twice: "coerce_in parse S (coerce_in parse T df) = coerce_in parse (S \<union> T) df"
  by (induction df) (auto simp: coerce_in_def coerce_idem)

lemma set_numeric_once:
  assumes "col \<in> set (columns df)" "length (filter (\<lambda>n. n = col) (columns df)) \<le> 1"
  shows "set_numeric parse col df = Inr (coerce_in parse {col} df)"
proof -
  have "filter (\<lambda>n. n = col) (columns df) \<noteq> []" using assms(1) by (simp add: filter_empty_conv)
  then obtain a where "filter (\<lambda>n. n = col) (columns df) = [a]"
    using assms(2) by (cases "filter (\<lambda>n. n = col) (columns df)") auto
  then show ?thesis by (simp add: set_numeric_def coerce_in_def)
qed

lemma ensure_numeric_ok:
  assumes "\<forall>c \<in> set cols. length (filter (\<lambda>n. n = c) (columns df)) \<le> 1"
  shows "ensure_numeric parse cols df = Inr (coerce_in parse (set cols \<inter> set (columns df)) df)"
  using assms
proof (induction cols arbitrary: df)
  case Nil
  then show ?case by (simp add: coerce_in_def)
next
  case (Cons c cols)
  show ?case
  proof (cases "c \<in> set (columns df)")
    case True
    have one: "length (filter (\<lambda>n. n = c) (columns df)) \<le> 1" using Cons.prems by simp
    have s: "set_numeric parse c df = Inr (coerce_in parse {c} df)"
      by (rule set_numeric_once [OF True one])
    have "\<forall>d \<in> set cols. length (filter (\<lambda>n. n = d) (columns (coerce_in parse {c} df))) \<le> 1"
      using Cons.prems by (simp add: columns_coerce_in)
    then have "ensure_numeric parse cols (coerce_in parse {c} df) =
        Inr (coerce_in parse (set cols \<inter> set (columns (coerce_in parse {c} df))) (coerce_in parse {c} df))"
      by (rule Cons.IH)
    moreover have "(set cols \<inter> set (columns df)) \<union> {c} = set (c # cols) \<inter> set (columns df)"
      using True by auto
    ultimately show ?thesis using True s by (simp add: columns_coerce_in coerce_in_twice)
  next
    case False
    have "\<forall>d \<in> set cols. length (filter (\<lambda>n. n = d) (columns df)) \<le> 1" using Cons.prems by simp
    then have "ensure_numeric parse cols df = Inr (coerce_in parse (set cols \<inter> set (columns df)) df)"
      by (rule Cons.IH)
    moreover have "set (c # cols) \<inter> set (columns df) = set cols \<inter> set (columns df)"
      using False by auto
    ultimately show ?thesis using False by simp
  qed
qed

lemma strip_aging: "map strip aging_cols = aging_cols"
  by (simp add: aging_cols_def strip_def is_space_def)

lemma used_aging_cols_inter:
  "set (used_aging_cols df) \<inter> set (columns df) = set aging_cols \<inter> set (columns df)"
proof -
  have a: "actual_aging_cols df = filter (\<lambda>c. c \<in> set (columns df)) aging_cols"
    unfolding actual_aging_cols_def using strip_aging
    by (simp add: aging_cols_def)
  show ?thesis
  proof (cases "actual_aging_cols df = []")
    case True
    then show ?thesis by (simp add: used_aging_cols_def Let_def)
  next
    case False
    then show ?thesis by (auto simp: used_aging_cols_def Let_def a)
  qed
qed

lemma used_aging_cols_subset: "set (used_aging_cols df) \<subseteq> set aging_cols"
proof -
  have a: "actual_aging_cols df = filter (\<lambda>c. c \<in> set (columns df)) aging_cols"
    unfolding actual_aging_cols_def using strip_aging
    by (simp add: aging_cols_def)
  show ?thesis by (auto simp: used_aging_cols_def Let_def a)
qed

lemma columns_strip_columns: "columns (strip_columns df) = map strip (columns df)"
  by (induction df) (auto simp: strip_columns_def columns_def)

lemma coerce_in_inter_columns: "coerce_in parse (S \<inter> set (columns df)) df = coerce_in parse S df"
proof -
  have "\<forall>p \<in> set df. fst p \<in> set (columns df)" by (auto simp: columns_def)
  then show ?thesis unfolding coerce_in_def by (intro map_cong) auto
qed

lemma coerce_in_strip_columns:
  "coerce_in parse (set numeric_cols) (strip_columns df0) = reconciled parse df0"
  by (induction df0) (auto simp: coerce_in_def strip_columns_def reconciled_def coerce_alt)

lemma reconcile_ok:
  assumes "\<forall>c \<in> set numeric_cols. length (filter (\<lambda>n. strip n = c) (columns df0)) \<le> 1"
  shows "reconcile parse df0 = Inr (reconciled parse df0)"
proof -
  let ?df = "strip_columns df0"
  have cnt: "\<forall>c \<in> set numeric_cols. length (filter (\<lambda>n. n = c) (columns ?df)) \<le> 1"
    using assms by (simp add: columns_strip_columns filter_map comp_def)
  have "\<forall>c \<in> set (used_aging_cols ?df). length (filter (\<lambda>n. n = c) (columns ?df)) \<le> 1"
    using cnt used_aging_cols_subset [of ?df] by (auto simp: numeric_cols_def)
  then have e: "ensure_numeric parse (used_aging_cols ?df) ?df =
      Inr (coerce_in parse (set aging_cols \<inter> set (columns ?df)) ?df)"
    by (simp add: ensure_numeric_ok used_aging_cols_inter)
  let ?df' = "coerce_in parse (set aging_cols \<inter> set (columns ?df)) ?df"
  have r: "reconcile parse df0 =
      (if balance_col \<in> set (columns ?df) then set_numeric parse balance_col ?df' else Inr ?df')"
    by (simp add: reconcile_def Let_def e columns_coerce_in)
  show ?thesis
  proof (cases "balance_col \<in> set (columns ?df)")
    case True
    have one: "length (filter (\<lambda>n. n = balance_col) (columns ?df')) \<le> 1"
      using cnt by (simp add: columns_coerce_in numeric_cols_def)
    have "set_numeric parse balance_col ?df' = Inr (coerce_in parse {balance_col} ?df')"
      using True one by (intro set_numeric_once) (simp_all add: columns_coerce_in)
    moreover have "{balance_col} \<union> set aging_cols \<inter> set (columns ?df) =
        set numeric_cols \<inter> set (columns ?df)"
      using True by (auto simp: numeric_cols_def)
    ultimately have "reconcile parse df0 = Inr (coerce_in parse (set numeric_cols \<inter> set (columns ?df)) ?df)"
      using True r by (simp add: coerce_in_twice)
    then show ?thesis by (simp add: coerce_in_inter_columns coerce_in_strip_columns)
  next
    case False
    then have "set aging_cols \<inter> set (columns ?df) = set numeric_cols \<inter> set (columns ?df)"
      by (auto simp: numeric_cols_def)
    then have "reconcile parse df0 = Inr (coerce_in parse (set numeric_cols \<inter> set (columns ?df)) ?df)"
      using False r by simp
    then show ?thesis by (simp add: coerce_in_inter_columns coerce_in_strip_columns)
  qed
qed

section \<open>Active entities and risk classification\<close>

lemma set_drop_duplicates: "set (drop_duplicates xs) = set xs"
  by (simp add: drop_duplicates_def)

lemma distinct_drop_duplicates: "distinct (drop_duplicates xs)"
  by (simp add: drop_duplicates_def)

lemma length_drop_duplicates: "length (drop_duplicates xs) = card (set xs)"
  using length_remdups_card_conv [of "rev xs"] by (simp add: drop_duplicates_def)

lemma merge_on_key_distinct:
  assumes "distinct right"
  shows "merge_on_key left right = filter (\<lambda>l. entity_key l \<in> set right) left"
proof -
  have one: "\<And>k. filter (\<lambda>k'. k' = k) right = (if k \<in> set right then [k] else [])"
  proof -
    fix k
    show "filter (\<lambda>k'. k' = k) right = (if k \<in> set right then [k] else [])"
      using assms by (induction right) auto
  qed
  show ?thesis unfolding merge_on_key_def by (induction left) (simp_all add: one)
qed

lemma set_sort_desc: "set (sort_desc f rows) = set rows"
  by (simp add: sort_desc_def)

lemma total_customers_count:
  assumes "balance_col \<in> set (frame_columns d)" "has_columns [''BP Code'', ''BP Name''] d"
  shows "total_customers d = Inr (card (entity_key ` {r \<in> set (frame_rows d). 0 < balance r}))"
  using assms by (simp add: total_customers_def cust_df_def length_drop_duplicates)

text \<open>
  What the two classifications select.  The creditor dashboard filters on the row's own
  balance before it joins with the base set; the receivables dashboard relies on the join
  alone, and the join is made only when the base set is not empty.
\<close>

lemma risk_creditors_iff:
  assumes "risk_creditors d = Inr (Some rs)"
  shows "r \<in> set rs \<longleftrightarrow> r \<in> set (frame_rows d) \<and> 0 < risk_amount r \<and> 0 < balance r"
proof -
  let ?cred = "drop_duplicates (map entity_key (filter (\<lambda>r. 0 < balance r) (frame_rows d)))"
  let ?rc = "filter (\<lambda>r. 0 < risk_amount r \<and> 0 < balance r) (frame_rows d)"
  have c: "cust_df d = Inr ?cred"
    using assms by (auto simp: risk_creditors_def cust_df_def has_columns_def balance_col_def split: if_splits sum.splits)
  have rs: "rs = sort_desc balance (if ?cred \<noteq> [] then merge_on_key ?rc ?cred else ?rc)"
    using assms by (auto simp: risk_creditors_def c Let_def split: if_splits)
  have m: "merge_on_key ?rc ?cred = ?rc"
    unfolding merge_on_key_distinct [OF distinct_drop_duplicates] set_drop_duplicates
    by (rule filter_True) auto
  show ?thesis unfolding rs by (auto simp: set_sort_desc m)
qed

lemma high_risk_iff:
  assumes "high_risk d = Inr (Some rs)" "\<exists>r \<in> set (frame_rows d). 0 < balance r"
  shows "r \<in> set rs \<longleftrightarrow> r \<in> set (frame_rows d) \<and> 0 < high_risk_amount r \<and>
     entity_key r \<in> entity_key ` {r' \<in> set (frame_rows d). 0 < balance r'}"
proof -
  let ?cust = "drop_duplicates (map entity_key (filter (\<lambda>r. 0 < balance r) (frame_rows d)))"
  let ?hr = "filter (\<lambda>r. 0 < high_risk_amount r) (frame_rows d)"
  have c: "cust_df d = Inr ?cust"
    using assms(1) by (auto simp: high_risk_def cust_df_def has_columns_def balance_col_def split: if_splits sum.splits)
  have ne: "?cust \<noteq> []"
  proof -
    have "set ?cust \<noteq> {}" using assms(2) by (auto simp: set_drop_duplicates)
    then show ?thesis by auto
  qed
  have rs: "rs = sort_desc high_risk_amount (merge_on_key ?hr ?cust)"
    using assms(1) ne by (auto simp: high_risk_def c Let_def split: if_splits)
  show ?thesis
    unfolding rs set_sort_desc merge_on_key_distinct [OF distinct_drop_duplicates] set_drop_duplicates
    by auto
qed

section \<open>Reconciliation and classification: C5, C8, C1\<close>

text \<open>
  C5, where it fails.  Two columns whose names differ only in surrounding white space
  carry the same name after stripping; \<open>df[col]\<close> is then a DataFrame and
  \<open>pd.to_numeric\<close> raises \<open>TypeError\<close>: the coercion does raise on this dataset.
\<close>

theorem reconcile_duplicate_names_counterexample:
  "\<forall>parse. reconcile parse
      [(''Balance/G.Total'', [Num 1]), (''Balance/G.Total '', [Num 2])] = Inl TypeError"
  by (simp add: reconcile_def strip_columns_def strip_def is_space_def used_aging_cols_def
      actual_aging_cols_def aging_cols_def columns_def balance_col_def set_numeric_def)

text \<open>
  C5, amended.  On every dataset in which no two columns strip to the same expected
  numeric name, reconciliation does not raise; it strips the white space around every
  column name, and for every expected numeric column present after stripping it
  makes every value a number, zero for a value that does not parse and for a missing
  value.  All other columns keep their values.
\<close>

theorem reconcile_coerces:
  assumes "\<forall>c \<in> set numeric_cols. length (filter (\<lambda>n. strip n = c) (columns df0)) \<le> 1"
  shows "\<exists>df. reconcile parse df0 = Inr df \<and> df = reconciled parse df0 \<and>
           columns df = map strip (columns df0) \<and>
           (\<forall>(n, vs) \<in> set df. n \<in> set numeric_cols \<longrightarrow> (\<forall>c \<in> set vs. \<exists>x. c = Num x))"
proof -
  have "columns (reconciled parse df0) = map strip (columns df0)"
    by (induction df0) (auto simp: reconciled_def columns_def)
  moreover have "\<forall>(n, vs) \<in> set (reconciled parse df0).
      n \<in> set numeric_cols \<longrightarrow> (\<forall>c \<in> set vs. \<exists>x. c = Num x)"
    by (auto simp: reconciled_def split: option.splits if_splits)
  ultimately show ?thesis using reconcile_ok [OF assms] by simp
qed

text \<open>
  The amended C5 on a dataset whose balance column is named with white space around it
  and holds a text that does not parse, a missing value and a number: the column is
  recognised as \<open>Balance/G.Total\<close> and its values become 0, 0 and 5.
\<close>

theorem reconcile_coerces_witness:
  "list_all (\<lambda>c. length (filter (\<lambda>n. strip n = c)
       (columns [('' Balance/G.Total '', [Txt ''n/a'', Missing, Num 5]),
                 (''BP Code'', [Txt ''C1'', Txt ''C2'', Txt ''C3''])])) \<le> 1) numeric_cols \<and>
   reconcile (\<lambda>s. None)
       [('' Balance/G.Total '', [Txt ''n/a'', Missing, Num 5]),
        (''BP Code'', [Txt ''C1'', Txt ''C2'', Txt ''C3''])] =
     Inr [(''Balance/G.Total'', [Num 0, Num 0, Num 5]),
          (''BP Code'', [Txt ''C1'', Txt ''C2'', Txt ''C3''])]"
proof -
  let ?df0 = "[('' Balance/G.Total '', [Txt ''n/a'', Missing, Num 5]),
               (''BP Code'', [Txt ''C1'', Txt ''C2'', Txt ''C3''])]"
  have h: "\<forall>c \<in> set numeric_cols. length (filter (\<lambda>n. strip n = c) (columns ?df0)) \<le> 1"
    by (simp add: strip_def is_space_def numeric_cols_def aging_cols_def balance_col_def columns_def)
  have r: "reconciled (\<lambda>s. None) ?df0 =
      [(''Balance/G.Total'', [Num 0, Num 0, Num 5]), (''BP Code'', [Txt ''C1'', Txt ''C2'', Txt ''C3''])]"
    by (simp add: reconciled_def strip_def is_space_def numeric_cols_def aging_cols_def
        balance_col_def to_numeric_def)
  from reconcile_coerces [OF h, of "\<lambda>s. None"]
  have "reconcile (\<lambda>s. None) ?df0 = Inr (reconciled (\<lambda>s. None) ?df0)" by blast
  then show ?thesis using h r by (simp add: list_all_iff)
qed

lemma total_customers_pairs:
  assumes "''BP Code'' \<in> set (frame_columns d)" "''BP Name'' \<in> set (frame_columns d)"
    "''Balance/G.Total'' \<in> set (frame_columns d)"
  shows "total_customers d =
           Inr (card ((\<lambda>r. (bp_code r, bp_name r)) ` {r \<in> set (frame_rows d). 0 < balance r}))"
proof -
  have k: "entity_key = (\<lambda>r. (bp_code r, bp_name r))" by (rule ext) (simp add: entity_key_def)
  have "total_customers d = Inr (card (entity_key ` {r \<in> set (frame_rows d). 0 < balance r}))"
    using assms by (intro total_customers_count) (simp_all add: balance_col_def has_columns_def)
  then show ?thesis unfolding k .
qed

lemma total_customers_no_balance:
  "''Balance/G.Total'' \<notin> set (frame_columns d) \<Longrightarrow> total_customers d = Inr 0"
  by (simp add: total_customers_def cust_df_def balance_col_def)

lemma total_customers_example_spec:
  "total_customers
     \<lparr>frame_columns = [''BP Code'', ''BP Name'', ''Balance/G.Total''],
      frame_rows =
        [\<lparr>bp_code = Txt ''A'', bp_name = Txt ''A'', bill_to_state = Missing, days_61_90 = 0,
          days_91_120 = 0, days_121_up = 0, balance = 100\<rparr>,
         \<lparr>bp_code = Txt ''A'', bp_name = Txt ''A'', bill_to_state = Missing, days_61_90 = 0,
          days_91_120 = 0, days_121_up = 0, balance = 100\<rparr>,
         \<lparr>bp_code = Txt ''B'', bp_name = Txt ''B'', bill_to_state = Missing, days_61_90 = 0,
          days_91_120 = 0, days_121_up = 0, balance = - 5\<rparr>,
         \<lparr>bp_code = Txt ''C'', bp_name = Txt ''C'', bill_to_state = Missing, days_61_90 = 0,
          days_91_120 = 0, days_121_up = 0, balance = 0\<rparr>]\<rparr> = Inr 1"
  by (simp add: total_customers_def cust_df_def has_columns_def balance_col_def
      drop_duplicates_def entity_key_def)

lemma total_customers_example_pairs:
  "total_customers
     \<lparr>frame_columns = [''BP Code'', ''BP Name'', ''Balance/G.Total''],
      frame_rows =
        [\<lparr>bp_code = Txt ''A'', bp_name = Txt ''Acme'', bill_to_state = Missing, days_61_90 = 0,
          days_91_120 = 0, days_121_up = 0, balance = 100\<rparr>,
         \<lparr>bp_code = Txt ''A'', bp_name = Txt ''Acme'', bill_to_state = Missing, days_61_90 = 0,
          days_91_120 = 0, days_121_up = 0, balance = 50\<rparr>,
         \<lparr>bp_code = Txt ''A'', bp_name = Txt ''Apex'', bill_to_state = Missing, days_61_90 = 0,
          days_91_120 = 0, days_121_up = 0, balance = 10\<rparr>,
         \<lparr>bp_code = Txt ''B'', bp_name = Txt ''Acme'', bill_to_state = Missing, days_61_90 = 0,
          days_91_120 = 0, days_121_up = 0, balance = 5\<rparr>,
         \<lparr>bp_code = Txt ''C'', bp_name = Txt ''Core'', bill_to_state = Missing, days_61_90 = 0,
          days_91_120 = 0, days_121_up = 0, balance = 0\<rparr>,
         \<lparr>bp_code = Txt ''D'', bp_name = Txt ''Dox'', bill_to_state = Missing, days_61_90 = 0,
          days_91_120 = 0, days_121_up = 0, balance = - 1\<rparr>]\<rparr> = Inr 3"
  by (simp add: total_customers_def cust_df_def has_columns_def balance_col_def
      drop_duplicates_def entity_key_def)

text \<open>
  C8.  Where the dataset has the balance column and the code and name columns, the
  active-entity count is the number of distinct (code, name) pairs among the rows whose
  balance is strictly positive: rows with a zero or negative balance do not count, and
  equal pairs count once.  Without the balance column the count is 0.  The entities
  (A, 100), (A, 100), (B, -5), (C, 0) count 1; rows that agree in the code only, or in the
  name only, are different entities.
\<close>

theorem total_customers_distinct_active:
  "(''BP Code'' \<in> set (frame_columns d) \<and> ''BP Name'' \<in> set (frame_columns d) \<and>
    ''Balance/G.Total'' \<in> set (frame_columns d) \<longrightarrow>
      total_customers d =
        Inr (card ((\<lambda>r. (bp_code r, bp_name r)) ` {r \<in> set (frame_rows d). 0 < balance r}))) \<and>
   (''Balance/G.Total'' \<notin> set (frame_columns d) \<longrightarrow> total_customers d = Inr 0) \<and>
   total_customers
     \<lparr>frame_columns = [''BP Code'', ''BP Name'', ''Balance/G.Total''],
      frame_rows =
        [\<lparr>bp_code = Txt ''A'', bp_name = Txt ''A'', bill_to_state = Missing, days_61_90 = 0,
          days_91_120 = 0, days_121_up = 0, balance = 100\<rparr>,
         \<lparr>bp_code = Txt ''A'', bp_name = Txt ''A'', bill_to_state = Missing, days_61_90 = 0,
          days_91_120 = 0, days_121_up = 0, balance = 100\<rparr>,
         \<lparr>bp_code = Txt ''B'', bp_name = Txt ''B'', bill_to_state = Missing, days_61_90 = 0,
          days_91_120 = 0, days_121_up = 0, balance = - 5\<rparr>,
         \<lparr>bp_code = Txt ''C'', bp_name = Txt ''C'', bill_to_state = Missing, days_61_90 = 0,
          days_91_120 = 0, days_121_up = 0, balance = 0\<rparr>]\<rparr> = Inr 1 \<and>
   total_customers
     \<lparr>frame_columns = [''BP Code'', ''BP Name'', ''Balance/G.Total''],
      frame_rows =
        [\<lparr>bp_code = Txt ''A'', bp_name = Txt ''Acme'', bill_to_state = Missing, days_61_90 = 0,
          days_91_120 = 0, days_121_up = 0, balance = 100\<rparr>,
         \<lparr>bp_code = Txt ''A'', bp_name = Txt ''Acme'', bill_to_state = Missing, days_61_90 = 0,
          days_91_120 = 0, days_121_up = 0, balance = 50\<rparr>,
         \<lparr>bp_code = Txt ''A'', bp_name = Txt ''Apex'', bill_to_state = Missing, days_61_90 = 0,
          days_91_120 = 0, days_121_up = 0, balance = 10\<rparr>,
         \<lparr>bp_code = Txt ''B'', bp_name = Txt ''Acme'', bill_to_state = Missing, days_61_90 = 0,
          days_91_120 = 0, days_121_up = 0, balance = 5\<rparr>,
         \<lparr>bp_code = Txt ''C'', bp_name = Txt ''Core'', bill_to_state = Missing, days_61_90 = 0,
          days_91_120 = 0, days_121_up = 0, balance = 0\<rparr>,
         \<lparr>bp_code = Txt ''D'', bp_name = Txt ''Dox'', bill_to_state = Missing, days_61_90 = 0,
          days_91_120 = 0, days_121_up = 0, balance = - 1\<rparr>]\<rparr> = Inr 3"
proof (intro conjI impI)
  assume "''BP Code'' \<in> set (frame_columns d) \<and> ''BP Name'' \<in> set (frame_columns d) \<and>
    ''Balance/G.Total'' \<in> set (frame_columns d)"
  then show "total_customers d =
        Inr (card ((\<lambda>r. (bp_code r, bp_name r)) ` {r \<in> set (frame_rows d). 0 < balance r}))"
    by (simp add: total_customers_pairs)
next
  assume "''Balance/G.Total'' \<notin> set (frame_columns d)"
  then show "total_customers d = Inr 0" by (rule total_customers_no_balance)
next
  show "total_customers
     \<lparr>frame_columns = [''BP Code'', ''BP Name'', ''Balance/G.Total''],
      frame_rows =
        [\<lparr>bp_code = Txt ''A'', bp_name = Txt ''A'', bill_to_state = Missing, days_61_90 = 0,
          days_91_120 = 0, days_121_up = 0, balance = 100\<rparr>,
         \<lparr>bp_code = Txt ''A'', bp_name = Txt ''A'', bill_to_state = Missing, days_61_90 = 0,
          days_91_120 = 0, days_121_up = 0, balance = 100\<rparr>,
         \<lparr>bp_code = Txt ''B'', bp_name = Txt ''B'', bill_to_state = Missing, days_61_90 = 0,
          days_91_120 = 0, days_121_up = 0, balance = - 5\<rparr>,
         \<lparr>bp_code = Txt ''C'', bp_name = Txt ''C'', bill_to_state = Missing, days_61_90 = 0,
          days_91_120 = 0, days_121_up = 0, balance = 0\<rparr>]\<rparr> = Inr 1"
    by (rule total_customers_example_spec)
next
  show "total_customers
     \<lparr>frame_columns = [''BP Code'', ''BP Name'', ''Balance/G.Total''],
      frame_rows =
        [\<lparr>bp_code = Txt ''A'', bp_name = Txt ''Acme'', bill_to_state = Missing, days_61_90 = 0,
          days_91_120 = 0, days_121_up = 0, balance = 100\<rparr>,
         \<lparr>bp_code = Txt ''A'', bp_name = Txt ''Acme'', bill_to_state = Missing, days_61_90 = 0,
          days_91_120 = 0, days_121_up = 0, balance = 50\<rparr>,
         \<lparr>bp_code = Txt ''A'', bp_name = Txt ''Apex'', bill_to_state = Missing, days_61_90 = 0,
          days_91_120 = 0, days_121_up = 0, balance = 10\<rparr>,
         \<lparr>bp_code = Txt ''B'', bp_name = Txt ''Acme'', bill_to_state = Missing, days_61_90 = 0,
          days_91_120 = 0, days_121_up = 0, balance = 5\<rparr>,
         \<lparr>bp_code = Txt ''C'', bp_name = Txt ''Core'', bill_to_state = Missing, days_61_90 = 0,
          days_91_120 = 0, days_121_up = 0, balance = 0\<rparr>,
         \<lparr>bp_code = Txt ''D'', bp_name = Txt ''Dox'', bill_to_state = Missing, days_61_90 = 0,
          days_91_120 = 0, days_121_up = 0, balance = - 1\<rparr>]\<rparr> = Inr 3"
    by (rule total_customers_example_pairs)
qed

text \<open>
  C8 on three rows: (A, Acme) with balance 100, (A, Apex) with balance 10 and (B, Acme)
  with balance -1.  The dataset has the three columns; the first two rows are active
  and are two entities although they share the code; the count is 2.
\<close>

theorem total_customers_distinct_active_witness:
  "''BP Code'' \<in> set [''BP Code'', ''BP Name'', ''Balance/G.Total''] \<and>
   ''BP Name'' \<in> set [''BP Code'', ''BP Name'', ''Balance/G.Total''] \<and>
   ''Balance/G.Total'' \<in> set [''BP Code'', ''BP Name'', ''Balance/G.Total''] \<and>
   total_customers
     \<lparr>frame_columns = [''BP Code'', ''BP Name'', ''Balance/G.Total''],
      frame_rows =
        [\<lparr>bp_code = Txt ''A'', bp_name = Txt ''Acme'', bill_to_state = Missing, days_61_90 = 0,
          days_91_120 = 0, days_121_up = 0, balance = 100\<rparr>,
         \<lparr>bp_code = Txt ''A'', bp_name = Txt ''Apex'', bill_to_state = Missing, days_61_90 = 0,
          days_91_120 = 0, days_121_up = 0, balance = 10\<rparr>,
         \<lparr>bp_code = Txt ''B'', bp_name = Txt ''Acme'', bill_to_state = Missing, days_61_90 = 0,
          days_91_120 = 0, days_121_up = 0, balance = - 1\<rparr>]\<rparr> = Inr 2"
proof -
  let ?a = "\<lparr>bp_code = Txt ''A'', bp_name = Txt ''Acme'', bill_to_state = Missing, days_61_90 = 0,
          days_91_120 = 0, days_121_up = 0, balance = (100::rat)\<rparr>"
  let ?b = "\<lparr>bp_code = Txt ''A'', bp_name = Txt ''Apex'', bill_to_state = Missing, days_61_90 = 0,
          days_91_120 = 0, days_121_up = 0, balance = (10::rat)\<rparr>"
  let ?c = "\<lparr>bp_code = Txt ''B'', bp_name = Txt ''Acme'', bill_to_state = Missing, days_61_90 = 0,
          days_91_120 = 0, days_121_up = 0, balance = (- 1::rat)\<rparr>"
  let ?d = "\<lparr>frame_columns = [''BP Code'', ''BP Name'', ''Balance/G.Total''],
            frame_rows = [?a, ?b, ?c]\<rparr>"
  have h: "''BP Code'' \<in> set (frame_columns ?d) \<and> ''BP Name'' \<in> set (frame_columns ?d) \<and>
    ''Balance/G.Total'' \<in> set (frame_columns ?d)"
    by simp
  have "{r \<in> set (frame_rows ?d). 0 < balance r} = {?a, ?b}" by auto
  then have c: "card ((\<lambda>r. (bp_code r, bp_name r)) ` {r \<in> set (frame_rows ?d). 0 < balance r}) = 2"
    by simp
  from total_customers_distinct_active [of ?d] h
  have "total_customers ?d =
      Inr (card ((\<lambda>r. (bp_code r, bp_name r)) ` {r \<in> set (frame_rows ?d). 0 < balance r}))"
    by blast
  then have "total_customers ?d = Inr 2" unfolding c .
  then show ?thesis using h by simp
qed

text \<open>
  C1, the failing input.  A receivables dataset with one customer whose 61-90 day bucket
  holds 500 and whose total balance is 0: no row has a positive balance, so the base
  customer set is empty, the join with it is skipped, and the customer is listed as
  high-risk although it is not active.
\<close>

theorem high_risk_keeps_settled_customer:
  "high_risk \<lparr>frame_columns = overdue_columns,
              frame_rows = [(entity ''A'' 0)\<lparr>days_61_90 := 500\<rparr>]\<rparr> =
     Inr (Some [(entity ''A'' 0)\<lparr>days_61_90 := 500\<rparr>]) \<and>
   cust_df \<lparr>frame_columns = overdue_columns,
            frame_rows = [(entity ''A'' 0)\<lparr>days_61_90 := 500\<rparr>]\<rparr> = Inr [] \<and>
   balance ((entity ''A'' 0)\<lparr>days_61_90 := 500\<rparr>) = 0 \<and>
   risk_creditors \<lparr>frame_columns = overdue_columns,
                   frame_rows = [(entity ''A'' 0)\<lparr>days_121_up := 500\<rparr>]\<rparr> = Inr (Some [])"
  by (simp add: high_risk_def risk_creditors_def cust_df_def has_columns_def overdue_columns_def
      aging_cols_def balance_col_def drop_duplicates_def entity_def entity_key_def
      high_risk_amount_def risk_amount_def sort_desc_def)

section \<open>Sales-order lines, their age and their buckets\<close>




lemma load_has_posting:
  "load_sales_data parse_date df = Inr df' \<Longrightarrow> ''Posting Date'' \<in> set (so_columns df') \<and> ''Overdue Days'' \<notin> set (so_columns df')"
  by (auto simp: load_sales_data_def Let_def split: if_splits)

lemma floor_days:
  "(today - p) div ns_per_day * ns_per_day \<le> today - p \<and>
   today - p < ((today - p) div ns_per_day + 1) * ns_per_day"
proof -
  define d where "d = today - p"
  define q where "q = d div ns_per_day"
  define m where "m = d mod ns_per_day"
  have pos: "0 < ns_per_day" by (simp add: ns_per_day_def)
  have eq: "d = q * ns_per_day + m" by (simp add: q_def m_def)
  have m0: "0 \<le> m" and m1: "m < ns_per_day" using pos by (simp_all add: m_def)
  have "(q + 1) * ns_per_day = q * ns_per_day + ns_per_day" by (simp add: algebra_simps)
  then have "q * ns_per_day \<le> d \<and> d < (q + 1) * ns_per_day" using eq m0 m1 by linarith
  then show ?thesis by (simp add: q_def d_def)
qed

section \<open>The Overdue Sales Orders page: C2, C3, C10\<close>

text \<open>
  C2, where it fails.  A dataset that \<open>load_sales_data\<close> accepts has the \<open>Posting Date\<close>
  column; a line of it whose posting date is missing gets the age NaN, not 0.
\<close>

theorem overdue_days_missing_posting_counterexample:
  "load_sales_data (\<lambda>s. None) \<lparr>so_columns = so_columns_all, so_lines = [open_line 100 NaT]\<rparr> =
     Inr \<lparr>so_columns = so_columns_all @ [''Display_State''], so_lines = [open_line 100 NaT]\<rparr> \<and>
   posting_date (open_line 100 NaT) = NaT \<and>
   overdue_days (\<lambda>s. None) 0
     \<lparr>so_columns = so_columns_all @ [''Display_State''], so_lines = [open_line 100 NaT]\<rparr>
     (open_line 100 NaT) = None \<and>
   overdue_days (\<lambda>s. None) 0
     \<lparr>so_columns = so_columns_all @ [''Display_State''], so_lines = [open_line 100 NaT]\<rparr>
     (open_line 100 NaT) \<noteq> Some 0"
  by (simp add: load_sales_data_def overdue_days_def so_columns_all_def open_line_def
      to_datetime_def as_date_cell_def unparsable_def)

text \<open>
  C2, amended.  Where the dataset has the \<open>Posting Date\<close> column (every dataset that
  \<open>load_sales_data\<close> returns has it), a line with a posting date gets as its age the
  reference date minus the posting date in whole days (the floor), and a line lacking a
  posting date gets a missing age (NaN); such a line falls in no aging bucket and
  raises no error.  Only where the dataset has no \<open>Posting Date\<close> column at all
  does every line get the age zero.
\<close>

theorem overdue_days_from_posting_date:
  "(''Posting Date'' \<in> set (so_columns df) \<longrightarrow>
      (\<forall>p. to_datetime parse_date (posting_date r) = Some p \<longrightarrow>
         (\<exists>n. overdue_days parse_date today df r = Some n \<and>
              n * ns_per_day \<le> today - p \<and> today - p < (n + 1) * ns_per_day)) \<and>
      (to_datetime parse_date (posting_date r) = None \<longrightarrow>
         overdue_days parse_date today df r = None)) \<and>
   (''Posting Date'' \<notin> set (so_columns df) \<longrightarrow> overdue_days parse_date today df r = Some 0) \<and>
   age_bucket None = None \<and>
   (\<forall>df'. load_sales_data parse_date df = Inr df' \<longrightarrow> ''Posting Date'' \<in> set (so_columns df'))"
proof (intro conjI impI allI)
  fix p
  assume "''Posting Date'' \<in> set (so_columns df)"
    and "to_datetime parse_date (posting_date r) = Some p"
  then have "overdue_days parse_date today df r = Some ((today - p) div ns_per_day)"
    by (simp add: overdue_days_def)
  then show "\<exists>n. overdue_days parse_date today df r = Some n \<and>
      n * ns_per_day \<le> today - p \<and> today - p < (n + 1) * ns_per_day"
    using floor_days [of today p] by blast
next
  assume "''Posting Date'' \<in> set (so_columns df)"
    and "to_datetime parse_date (posting_date r) = None"
  then show "overdue_days parse_date today df r = None"
    by (simp add: overdue_days_def)
next
  assume "''Posting Date'' \<notin> set (so_columns df)"
  then show "overdue_days parse_date today df r = Some 0"
    by (simp add: overdue_days_def)
next
  show "age_bucket None = None" by (simp add: age_bucket_def)
next
  fix df'
  assume "load_sales_data parse_date df = Inr df'"
  then show "''Posting Date'' \<in> set (so_columns df')"
    using load_has_posting by blast
qed

text \<open>
  The amended C2 on a line posted 36 hours before the reference midnight of day 10: its
  age is one whole day.
\<close>

theorem overdue_days_from_posting_date_witness:
  "''Posting Date'' \<in> set so_columns_all \<and>
   to_datetime (\<lambda>s. None) (posting_date (open_line 100 (Stamp (10 * ns_per_day - 129600000000000)))) =
     Some (10 * ns_per_day - 129600000000000) \<and>
   overdue_days (\<lambda>s. None) (10 * ns_per_day)
     \<lparr>so_columns = so_columns_all, so_lines = []\<rparr>
     (open_line 100 (Stamp (10 * ns_per_day - 129600000000000))) = Some 1"
proof -
  let ?df = "\<lparr>so_columns = so_columns_all, so_lines = []\<rparr>"
  let ?p = "10 * ns_per_day - 129600000000000"
  let ?r = "open_line 100 (Stamp ?p)"
  have h1: "''Posting Date'' \<in> set (so_columns ?df)" by (simp add: so_columns_all_def)
  have h2: "to_datetime (\<lambda>s. None) (posting_date ?r) = Some ?p"
    by (simp add: to_datetime_def open_line_def)
  from overdue_days_from_posting_date [of ?df "\<lambda>s. None" ?r "10 * ns_per_day"] h1 h2
  obtain n where n: "overdue_days (\<lambda>s. None) (10 * ns_per_day) ?df ?r = Some n"
    "n * ns_per_day \<le> 10 * ns_per_day - ?p" "10 * ns_per_day - ?p < (n + 1) * ns_per_day"
    by blast
  from n(2,3) have "n = 1" by (simp add: ns_per_day_def)
  with n(1) h1 h2 show ?thesis by simp
qed





section \<open>The candidate loop of the stock-ageing loader\<close>
















section \<open>The stock-ageing loader: C4\<close>





end
